theory Spec2Isabelle
  imports Complex_Main
begin

section \<open>Numbers\<close>

text \<open>
  The scene computes with JavaScript numbers. They are modelled as exact reals extended
  by \<open>NaN\<close>: rounding, overflow and underflow of IEEE-754 doubles are not modelled,
  and there are no infinities. A comparison with \<open>NaN\<close> is false, and arithmetic on
  \<open>NaN\<close> gives \<open>NaN\<close>. Division by zero gives \<open>NaN\<close>; JavaScript gives \<open>NaN\<close>
  for \<open>0 / 0\<close> and an infinity for \<open>x / 0\<close> with \<open>x \<noteq> 0\<close>. The only division of the
  modelled code divides a coordinate difference by the computed distance. Over exact
  reals a computed distance of zero forces all three differences to be zero (lemma
  \<open>distSq_zero\<close>), so that only \<open>0 / 0\<close> arises here. In double precision the square
  of a small difference underflows to zero, and the computed distance can be zero for
  two distinct positions: the properties of the repulsion are therefore stated in terms
  of the computed distance, and none of them concludes from distinct positions that the
  divisor is not zero.
\<close>

datatype number = Num real | NaN

fun nadd :: "number \<Rightarrow> number \<Rightarrow> number" where
  "nadd (Num a) (Num b) = Num (a + b)"
| "nadd _ _ = NaN"

fun nsub :: "number \<Rightarrow> number \<Rightarrow> number" where
  "nsub (Num a) (Num b) = Num (a - b)"
| "nsub _ _ = NaN"

fun nmul :: "number \<Rightarrow> number \<Rightarrow> number" where
  "nmul (Num a) (Num b) = Num (a * b)"
| "nmul _ _ = NaN"

fun ndiv :: "number \<Rightarrow> number \<Rightarrow> number" where
  "ndiv (Num a) (Num b) = (if b = 0 then NaN else Num (a / b))"
| "ndiv _ _ = NaN"

fun nsqrt :: "number \<Rightarrow> number" where
  "nsqrt (Num a) = (if a < 0 then NaN else Num (sqrt a))"
| "nsqrt NaN = NaN"

fun nless :: "number \<Rightarrow> number \<Rightarrow> bool" where
  "nless (Num a) (Num b) = (a < b)"
| "nless _ _ = False"

fun finite_num :: "number \<Rightarrow> bool" where
  "finite_num (Num a) = True"
| "finite_num NaN = False"

section \<open>Data model\<close>

text \<open>A \<open>THREE.Vector3\<close>.\<close>

record vector3 =
  cx :: number
  cy :: number
  cz :: number

text \<open>
  One floating document node: the \<open>THREE.Group\<close> built for a section in
  \<open>initDetailsScene\<close> together with its \<open>userData\<close>. \<open>groupId\<close> is the group's
  \<open>id\<close>; \<open>crystalRotX\<close> and \<open>crystalRotY\<close> are the rotation of \<open>crystalMesh\<close>;
  \<open>crystalOpacity\<close> and \<open>spriteOpacity\<close> are the opacities of the materials of the
  group's two children. The group's quaternion and the material of the crystal's core,
  which all nodes share, are rendering state that is not modelled.
\<close>

record node =
  groupId :: nat
  position :: vector3
  velocity :: vector3
  rotationSpeed :: real
  originalSectionId :: string
  isFrozen :: bool
  crystalRotX :: real
  crystalRotY :: real
  crystalOpacity :: real
  spriteOpacity :: real

text \<open>The three style properties of the reading pane that the scene writes.\<close>

record paneStyle =
  opacity :: string
  pointerEvents :: string
  transform :: string

text \<open>
  The state of the scene: the array \<open>nodes\<close>, the variable \<open>activeNodeGroup\<close>
  (a reference to a group, modelled as its index in \<open>nodes\<close>; \<open>None\<close> is \<open>null\<close>),
  the style of the reading pane, and the document as far as \<open>getElementById\<close> reads it:
  a map from element ids to the element's \<open>innerHTML\<close>.
\<close>

record state =
  nodes :: "node list"
  activeNodeGroup :: "nat option"
  readingPane :: paneStyle
  document :: "string \<rightharpoonup> string"

section \<open>Pointer selection\<close>

definition paneHidden :: paneStyle where
  "paneHidden = \<lparr>opacity = ''0'', pointerEvents = ''none'',
     transform = ''translate(-50%, -50%) scale(0.9)''\<rparr>"

definition paneShown :: paneStyle where
  "paneShown = \<lparr>opacity = ''1'', pointerEvents = ''auto'',
     transform = ''translate(-50%, -50%) scale(1)''\<rparr>"

text \<open>
  The hide notification: the three style writes that end \<open>closeReadingPane\<close>.
\<close>

definition hideReadingPane :: "state \<Rightarrow> state" where
  "hideReadingPane s = s\<lparr>readingPane := paneHidden\<rparr>"

definition closeReadingPane :: "state \<Rightarrow> state" where
  "closeReadingPane s =
     hideReadingPane
       (case activeNodeGroup s of
          None \<Rightarrow> s
        | Some a \<Rightarrow> s\<lparr>nodes := (nodes s)[a := (nodes s ! a)\<lparr>isFrozen := False\<rparr>],
                       activeNodeGroup := None\<rparr>)"

text \<open>
  The show notification for a section id: the lookup of the source section and of the
  content container, and, when both exist, the copy of the section's content into the
  container and the three style writes that show the pane (the end of the selection
  branch of \<open>onMouseClick\<close>).
\<close>

definition showReadingPane :: "string \<Rightarrow> state \<Rightarrow> state" where
  "showReadingPane sectionId s =
     (case (document s sectionId, document s ''reading-content'') of
        (Some html, Some _) \<Rightarrow>
          s\<lparr>document := (document s)(''reading-content'' \<mapsto> html), readingPane := paneShown\<rparr>
      | _ \<Rightarrow> s)"

text \<open>
  An entry of the raycaster's result. The objects tested are the crystal and the label
  sprite of every node, and, the test being recursive, the core inside a crystal; each
  is tagged with the index of the group that owns it.
\<close>

datatype hit = HitCrystal nat | HitSprite nat | HitCore nat

text \<open>
  \<open>userData.originalSectionId\<close> of the group at an index, when it is truthy: the
  section id must be a non-empty string.
\<close>

definition groupWithSection :: "node list \<Rightarrow> nat \<Rightarrow> nat option" where
  "groupWithSection ns i =
     (if i < length ns \<and> originalSectionId (ns ! i) \<noteq> [] then Some i else None)"

text \<open>
  The resolution of the hit object to its group. The parent of a crystal or of a sprite
  is the group; when the group has no section id the code looks at the group's parent,
  the container of all nodes, whose \<open>userData\<close> is empty. The parent of a core is the
  crystal, whose \<open>userData\<close> is empty, and the crystal's parent is the group.
\<close>

fun targetGroup :: "node list \<Rightarrow> hit \<Rightarrow> nat option" where
  "targetGroup ns (HitCrystal i) =
     (case groupWithSection ns i of Some g \<Rightarrow> Some g | None \<Rightarrow> None)"
| "targetGroup ns (HitSprite i) =
     (case groupWithSection ns i of Some g \<Rightarrow> Some g | None \<Rightarrow> None)"
| "targetGroup ns (HitCore i) = groupWithSection ns i"

definition selectGroup :: "nat \<Rightarrow> state \<Rightarrow> state" where
  "selectGroup t s =
     (let ns1 = (case activeNodeGroup s of
                   None \<Rightarrow> nodes s
                 | Some a \<Rightarrow> (nodes s)[a := (nodes s ! a)\<lparr>isFrozen := False\<rparr>]);
          ns2 = ns1[t := (ns1 ! t)\<lparr>isFrozen := True\<rparr>]
      in showReadingPane (originalSectionId (ns2 ! t))
           (s\<lparr>nodes := ns2, activeNodeGroup := Some t\<rparr>))"

text \<open>
  \<open>onMouseClick\<close>, on the list of intersections that the raycaster returns for the
  pointer, nearest first.
\<close>

definition onMouseClick :: "hit list \<Rightarrow> state \<Rightarrow> state" where
  "onMouseClick intersects s =
     (case intersects of
        [] \<Rightarrow> closeReadingPane s
      | h # _ \<Rightarrow>
          (case targetGroup (nodes s) h of
             None \<Rightarrow> s
           | Some t \<Rightarrow> if activeNodeGroup s \<noteq> Some t then selectGroup t s else s))"

section \<open>The animation step\<close>

definition minDistance :: real where
  "minDistance = 9"

text \<open>
  The squared distance of two nodes, as the collision loop computes it from the
  coordinate differences \<open>dx\<close>, \<open>dy\<close> and \<open>dz\<close>.
\<close>

definition distSq :: "node \<Rightarrow> node \<Rightarrow> number" where
  "distSq n1 n2 =
     (let dx = nsub (cx (position n1)) (cx (position n2));
          dy = nsub (cy (position n1)) (cy (position n2));
          dz = nsub (cz (position n1)) (cz (position n2))
      in nadd (nadd (nmul dx dx) (nmul dy dy)) (nmul dz dz))"

text \<open>
  The body of the collision loop for the pair \<open>n1 = nodes[i]\<close>, \<open>n2 = nodes[j]\<close>
  with \<open>i < j\<close>: it returns the two nodes with their velocities updated.
\<close>

definition repel :: "node \<Rightarrow> node \<Rightarrow> node \<times> node" where
  "repel n1 n2 =
     (if isFrozen n1 \<or> isFrozen n2 then (n1, n2)
      else
        let dx = nsub (cx (position n1)) (cx (position n2));
            dy = nsub (cy (position n1)) (cy (position n2));
            dz = nsub (cz (position n1)) (cz (position n2))
        in if nless (distSq n1 n2) (nmul (Num minDistance) (Num minDistance)) then
             let dist = nsqrt (distSq n1 n2);
                 force = nmul (Num 0.001) (nsub (Num minDistance) dist);
                 v1 = velocity n1;
                 v2 = velocity n2
             in (n1\<lparr>velocity :=
                     \<lparr>cx = nadd (cx v1) (nmul (ndiv dx dist) force),
                      cy = nadd (cy v1) (nmul (ndiv dy dist) force),
                      cz = nadd (cz v1) (nmul (ndiv dz dist) force)\<rparr>\<rparr>,
                 n2\<lparr>velocity :=
                     \<lparr>cx = nsub (cx v2) (nmul (ndiv dx dist) force),
                      cy = nsub (cy v2) (nmul (ndiv dy dist) force),
                      cz = nsub (cz v2) (nmul (ndiv dz dist) force)\<rparr>\<rparr>)
           else (n1, n2))"

definition repelPair :: "nat \<Rightarrow> nat \<Rightarrow> node list \<Rightarrow> node list" where
  "repelPair i j ns = (case repel (ns ! i) (ns ! j) of (n1, n2) \<Rightarrow> ns[i := n1, j := n2])"

text \<open>
  The two nested loops: \<open>i\<close> from \<open>0\<close> and \<open>j\<close> from \<open>i + 1\<close>, both below
  \<open>nodes.length\<close>, which no iteration changes.
\<close>

definition collisionAvoidance :: "node list \<Rightarrow> node list" where
  "collisionAvoidance ns =
     fold (\<lambda>i acc. fold (repelPair i) [Suc i ..< length acc] acc) [0 ..< length ns] ns"

text \<open>
  One axis of the bounds check: the test against the upper limit, then the test against
  the lower limit, on a position component and its velocity component.
\<close>

definition boundsCheck :: "real \<Rightarrow> real \<Rightarrow> number \<times> number \<Rightarrow> number \<times> number" where
  "boundsCheck lo hi pv =
     (case (if nless (Num hi) (fst pv) then (Num hi, nmul (snd pv) (Num (- 1))) else pv) of
        (p1, v1) \<Rightarrow> if nless p1 (Num lo) then (Num lo, nmul v1 (Num (- 1))) else (p1, v1))"

definition limitX :: real where "limitX = 14"
definition limitY :: real where "limitY = 7"

text \<open>\<open>THREE.MathUtils.lerp\<close>.\<close>

definition lerp :: "real \<Rightarrow> real \<Rightarrow> real \<Rightarrow> real" where
  "lerp a b t = (1 - t) * a + t * b"

text \<open>
  The body of \<open>nodes.forEach\<close> in \<open>animate\<close>, at the elapsed time \<open>time\<close> read from
  the clock: rotation of the crystal; for a drifting node the drift, the bounds check,
  the sway and the fade-in; for a frozen node the fade-out.
\<close>

definition animateNode :: "real \<Rightarrow> node \<Rightarrow> node" where
  "animateNode time g =
     (let g1 = g\<lparr>crystalRotX := crystalRotX g + rotationSpeed g,
                 crystalRotY := crystalRotY g + rotationSpeed g\<rparr>
      in if \<not> isFrozen g1 then
           let p = position g1;
               v = velocity g1;
               (px, vx) = boundsCheck (- limitX) limitX (nadd (cx p) (cx v), cx v);
               (py, vy) = boundsCheck (- limitY) limitY (nadd (cy p) (cy v), cy v);
               (pz, vz) = boundsCheck (- 10) 5 (nadd (cz p) (cz v), cz v);
               py' = nadd py (Num (sin (time + real (groupId g1)) * 0.002))
           in g1\<lparr>position := \<lparr>cx = px, cy = py', cz = pz\<rparr>,
                  velocity := \<lparr>cx = vx, cy = vy, cz = vz\<rparr>,
                  crystalOpacity := lerp (crystalOpacity g1) 0.5 0.1,
                  spriteOpacity := lerp (spriteOpacity g1) 0.9 0.1\<rparr>
         else
           g1\<lparr>spriteOpacity := lerp (spriteOpacity g1) 0.05 0.1,
               crystalOpacity := lerp (crystalOpacity g1) 0.1 0.1\<rparr>)"

text \<open>
  \<open>animate\<close>: the collision loop, then the loop over the nodes. Scheduling the next
  frame, the rotation of the star field and rendering are not modelled.
\<close>

definition animate :: "real \<Rightarrow> state \<Rightarrow> state" where
  "animate time s = s\<lparr>nodes := map (animateNode time) (collisionAvoidance (nodes s))\<rparr>"

section \<open>Runs\<close>

text \<open>
  The page reacts to two events: a click or tap, with the raycaster's intersections, and
  an animation frame, with the clock's elapsed time.
\<close>

datatype event = MouseClick "hit list" | Frame real

fun dispatch :: "event \<Rightarrow> state \<Rightarrow> state" where
  "dispatch (MouseClick intersects) s = onMouseClick intersects s"
| "dispatch (Frame time) s = animate time s"

definition run :: "event list \<Rightarrow> state \<Rightarrow> state" where
  "run evs s = fold dispatch evs s"

text \<open>
  The state after \<open>initDetailsScene\<close> as far as selection goes: every node is created
  with \<open>isFrozen: false\<close>, and \<open>activeNodeGroup\<close> is \<open>null\<close>.
\<close>

definition initial :: "state \<Rightarrow> bool" where
  "initial s \<longleftrightarrow> (\<forall>n \<in> set (nodes s). \<not> isFrozen n) \<and> activeNodeGroup s = None"

text \<open>
  The selection invariant: a node is frozen exactly when it is the active selection.
\<close>

definition selection_inv :: "state \<Rightarrow> bool" where
  "selection_inv s \<longleftrightarrow>
     (\<forall>i < length (nodes s). isFrozen (nodes s ! i) \<longleftrightarrow> activeNodeGroup s = Some i) \<and>
     (\<forall>a. activeNodeGroup s = Some a \<longrightarrow> a < length (nodes s))"

section \<open>Notions used to state the properties\<close>

text \<open>
  The pane invariant: while nothing is selected the reading pane carries the hidden
  style, which is the style \<open>initDetailsScene\<close> creates it with.
\<close>

definition pane_inv :: "state \<Rightarrow> bool" where
  "pane_inv s \<longleftrightarrow> (activeNodeGroup s = None \<longrightarrow> readingPane s = paneHidden)"

text \<open>
  The relation between a node before and after the collision loop: nothing but the
  velocity differs, and a frozen node does not differ at all.
\<close>

definition velocity_only :: "node \<Rightarrow> node \<Rightarrow> bool" where
  "velocity_only n n' \<longleftrightarrow> n' = n\<lparr>velocity := velocity n'\<rparr> \<and> (isFrozen n \<longrightarrow> n' = n)"

definition finite_vec :: "vector3 \<Rightarrow> bool" where
  "finite_vec v \<longleftrightarrow> finite_num (cx v) \<and> finite_num (cy v) \<and> finite_num (cz v)"

text \<open>The real value of a number that is not \<open>NaN\<close>.\<close>

fun val :: "number \<Rightarrow> real" where
  "val (Num a) = a"
| "val NaN = 0"

text \<open>
  The words of the specification for the repulsion: the Euclidean distance of two nodes,
  and the component along a coordinate \<open>c\<close> of the impulse that node \<open>n\<close> receives from
  node \<open>m\<close>, of magnitude \<open>0.001 * (threshold - distance)\<close> along the line from \<open>m\<close> to
  \<open>n\<close>, and zero when a node of the pair is frozen or the distance is not below the
  threshold.
\<close>

definition distance :: "node \<Rightarrow> node \<Rightarrow> real" where
  "distance n m =
     sqrt ((val (cx (position n)) - val (cx (position m)))\<^sup>2 +
           (val (cy (position n)) - val (cy (position m)))\<^sup>2 +
           (val (cz (position n)) - val (cz (position m)))\<^sup>2)"

definition impulse :: "(vector3 \<Rightarrow> number) \<Rightarrow> node \<Rightarrow> node \<Rightarrow> real" where
  "impulse c n m =
     (if isFrozen n \<or> isFrozen m \<or> minDistance \<le> distance n m then 0
      else 0.001 * (minDistance - distance n m) *
           ((val (c (position n)) - val (c (position m))) / distance n m))"

section \<open>Example scenes\<close>

definition vec3 :: "real \<Rightarrow> real \<Rightarrow> real \<Rightarrow> vector3" where
  "vec3 a b c = \<lparr>cx = Num a, cy = Num b, cz = Num c\<rparr>"

text \<open>
  A node as \<open>initDetailsScene\<close> creates it for a section: not frozen, the crystal
  unrotated, the crystal's material at opacity \<open>0.5\<close> and the label's at \<open>0.9\<close>.
  The position, the velocity and the rotation speed are random there.
\<close>

definition newNode :: "nat \<Rightarrow> vector3 \<Rightarrow> vector3 \<Rightarrow> real \<Rightarrow> string \<Rightarrow> node" where
  "newNode g p v r sectionId =
     \<lparr>groupId = g, position = p, velocity = v, rotationSpeed = r,
      originalSectionId = sectionId, isFrozen = False, crystalRotX = 0, crystalRotY = 0,
      crystalOpacity = 0.5, spriteOpacity = 0.9\<rparr>"

text \<open>
  A page with three sections, and the scene right after initialisation: nothing
  selected, the pane hidden, its content container empty.
\<close>

definition page :: "string \<rightharpoonup> string" where
  "page = [''intro'' \<mapsto> ''<h2>Intro</h2>'', ''usage'' \<mapsto> ''<h2>Usage</h2>'',
           ''notes'' \<mapsto> ''<h2>Notes</h2>'', ''reading-content'' \<mapsto> []]"

definition scene :: "node list \<Rightarrow> state" where
  "scene ns = \<lparr>nodes = ns, activeNodeGroup = None, readingPane = paneHidden, document = page\<rparr>"

text \<open>The example of the specification: nodes at rest at (0,0,0), (1,0,0) and (10,10,10).\<close>

definition threeNodes :: "node list" where
  "threeNodes =
     [newNode 10 (vec3 0 0 0) (vec3 0 0 0) 0.002 ''intro'',
      newNode 11 (vec3 1 0 0) (vec3 0 0 0) 0.002 ''usage'',
      newNode 12 (vec3 10 10 10) (vec3 0 0 0) 0.002 ''notes'']"

text \<open>Three nodes at rest on a line, at (0,0,0), (8,0,0) and (9,0,0).\<close>

definition lineNodes :: "node list" where
  "lineNodes =
     [newNode 10 (vec3 0 0 0) (vec3 0 0 0) 0.002 ''intro'',
      newNode 11 (vec3 8 0 0) (vec3 0 0 0) 0.002 ''usage'',
      newNode 12 (vec3 9 0 0) (vec3 0 0 0) 0.002 ''notes'']"

text \<open>
  The same page without the content container of the reading pane, as when the page
  declares a reading pane of its own, and the scene on it.
\<close>

definition barePage :: "string \<rightharpoonup> string" where
  "barePage = [''intro'' \<mapsto> ''<h2>Intro</h2>'', ''usage'' \<mapsto> ''<h2>Usage</h2>'',
               ''notes'' \<mapsto> ''<h2>Notes</h2>'']"

definition bareScene :: state where
  "bareScene = \<lparr>nodes = threeNodes, activeNodeGroup = None, readingPane = paneHidden,
                 document = barePage\<rparr>"

text \<open>
  A scene in which nothing is selected while the reading pane is shown, as when the
  page declares a visible reading pane of its own.
\<close>

definition shownIdle :: state where
  "shownIdle = \<lparr>nodes = threeNodes, activeNodeGroup = None, readingPane = paneShown,
                 document = page\<rparr>"

text \<open>Two drifting nodes at rest at the same position.\<close>

definition stackedNodes :: "node list" where
  "stackedNodes =
     [newNode 10 (vec3 0 0 0) (vec3 0 0 0) 0.002 ''intro'',
      newNode 11 (vec3 0 0 0) (vec3 0 0 0) 0.002 ''usage'']"

text \<open>
  The second example of the specification, a node at (14.5, 0, 0) with velocity
  (0.3, 0, 0), and the same on the vertical axis.
\<close>

definition wallNodeX :: node where
  "wallNodeX = newNode 10 (vec3 14.5 0 0) (vec3 0.3 0 0) 0.002 ''intro''"

definition wallNodeY :: node where
  "wallNodeY = newNode 1 (vec3 0 7.5 0) (vec3 0 0.3 0) 0.002 ''intro''"

text \<open>The scene of \<open>threeNodes\<close> after a click on the label of the first node.\<close>

definition selectedScene :: state where
  "selectedScene = onMouseClick [HitSprite 0] (scene threeNodes)"

text \<open>
  The dot product of the change of the relative velocity of two nodes, from \<open>a\<close>, \<open>b\<close>
  to \<open>a'\<close>, \<open>b'\<close>, with their relative position.
\<close>

definition separation :: "node \<Rightarrow> node \<Rightarrow> node \<Rightarrow> node \<Rightarrow> real" where
  "separation a b a' b' =
     (\<Sum>c \<leftarrow> [cx, cy, cz].
        ((val (c (velocity a')) - val (c (velocity a))) -
         (val (c (velocity b')) - val (c (velocity b)))) *
        (val (c (position a)) - val (c (position b))))"

text \<open>
  What the body of the collision loop adds to the component \<open>c\<close> of the velocity of its
  first node \<open>n1\<close> and subtracts from that of its second node \<open>n2\<close>: nothing when
  one of the two tests of the body fails, and otherwise the quotient of the coordinate
  difference by the computed distance, times the force.
\<close>

definition push :: "(vector3 \<Rightarrow> number) \<Rightarrow> node \<Rightarrow> node \<Rightarrow> number" where
  "push c n1 n2 =
     (if isFrozen n1 \<or> isFrozen n2 then Num 0
      else if nless (distSq n1 n2) (nmul (Num minDistance) (Num minDistance)) then
        nmul (ndiv (nsub (c (position n1)) (c (position n2))) (nsqrt (distSq n1 n2)))
             (nmul (Num 0.001) (nsub (Num minDistance) (nsqrt (distSq n1 n2))))
      else Num 0)"

text \<open>
  A pair that the body of the collision loop leaves alone: a node of it is frozen, or
  the test of the squared distance against the threshold fails.
\<close>

definition inert :: "node \<Rightarrow> node \<Rightarrow> bool" where
  "inert n1 n2 \<longleftrightarrow>
     isFrozen n1 \<or> isFrozen n2 \<or>
     \<not> nless (distSq n1 n2) (nmul (Num minDistance) (Num minDistance))"

text \<open>
  Numbers under the addition of the program form a commutative monoid, with \<open>NaN\<close>
  absorbing; this gives sums of numbers over index sets.
\<close>

instantiation number :: comm_monoid_add
begin

definition zero_number :: number where
  "zero_number = Num 0"

definition plus_number :: "number \<Rightarrow> number \<Rightarrow> number" where
  "plus_number = nadd"

instance
proof
  fix a b c :: number
  show "a + b + c = a + (b + c)"
    by (cases a; cases b; cases c) (simp_all add: plus_number_def)
  show "a + b = b + a"
    by (cases a; cases b) (simp_all add: plus_number_def)
  show "0 + a = a"
    by (cases a) (simp_all add: plus_number_def zero_number_def)
qed

end

section \<open>The collision loop changes velocities only\<close>

lemma velocity_only_refl: "velocity_only n n"
  by (simp add: velocity_only_def)

lemma velocity_only_trans:
  "velocity_only a b \<Longrightarrow> velocity_only b c \<Longrightarrow> velocity_only a c"
  unfolding velocity_only_def
  by (metis node.surjective node.update_convs(3) node.select_convs(6))

lemma repel_fst: "velocity_only a (fst (repel a b))"
  by (simp add: repel_def velocity_only_def Let_def)

lemma repel_snd: "velocity_only b (snd (repel a b))"
  by (simp add: repel_def velocity_only_def Let_def)

lemma repelPair_velocity_only: "list_all2 velocity_only ns (repelPair i j ns)"
proof -
  obtain n1 n2 where r: "repel (ns ! i) (ns ! j) = (n1, n2)"
    by (cases "repel (ns ! i) (ns ! j)")
  have a: "velocity_only (ns ! i) n1" using repel_fst [of "ns ! i" "ns ! j"] r by simp
  have b: "velocity_only (ns ! j) n2" using repel_snd [where a = "ns ! i" and b = "ns ! j"] r by simp
  have "velocity_only (ns ! k) (ns[i := n1, j := n2] ! k)" if "k < length ns" for k
    using that a b by (cases "k = j"; cases "k = i") (simp_all add: velocity_only_refl)
  then show ?thesis
    unfolding repelPair_def r by (simp add: list_all2_conv_all_nth)
qed

lemma list_all2_velocity_only_trans:
  "list_all2 velocity_only xs ys \<Longrightarrow> list_all2 velocity_only ys zs \<Longrightarrow> list_all2 velocity_only xs zs"
  by (rule list_all2_trans [of velocity_only velocity_only velocity_only]) (auto intro: velocity_only_trans)

lemma fold_repelPair_velocity_only:
  "list_all2 velocity_only ns (fold (repelPair i) js ns)"
proof (induction js arbitrary: ns)
  case Nil
  show ?case by (simp add: list_all2_conv_all_nth velocity_only_refl)
next
  case (Cons j js)
  show ?case
    using list_all2_velocity_only_trans [OF repelPair_velocity_only Cons.IH]
    by simp
qed

lemma outer_velocity_only:
  "list_all2 velocity_only ns (fold (\<lambda>i acc. fold (repelPair i) (f i acc) acc) is ns)"
proof (induction "is" arbitrary: ns)
  case Nil
  show ?case by (simp add: list_all2_conv_all_nth velocity_only_refl)
next
  case (Cons i "is")
  show ?case
    using list_all2_velocity_only_trans [OF fold_repelPair_velocity_only Cons.IH]
    by simp
qed

lemma collisionAvoidance_velocity_only:
  "list_all2 velocity_only ns (collisionAvoidance ns)"
  unfolding collisionAvoidance_def by (rule outer_velocity_only)

lemma length_collisionAvoidance: "length (collisionAvoidance ns) = length ns"
  using collisionAvoidance_velocity_only [of ns] by (simp add: list_all2_lengthD)

lemma isFrozen_animateNode: "isFrozen (animateNode t g) = isFrozen g"
  by (simp add: animateNode_def Let_def split: prod.splits)

lemma sectionId_animateNode: "originalSectionId (animateNode t g) = originalSectionId g"
  by (simp add: animateNode_def Let_def split: prod.splits)

lemma frozen_animateNode:
  "isFrozen g \<Longrightarrow> position (animateNode t g) = position g \<and> velocity (animateNode t g) = velocity g"
  by (simp add: animateNode_def Let_def)

section \<open>Selection lemmas\<close>

lemma nodes_showReadingPane [simp]: "nodes (showReadingPane c s) = nodes s"
  by (simp add: showReadingPane_def split: option.splits)

lemma active_showReadingPane [simp]: "activeNodeGroup (showReadingPane c s) = activeNodeGroup s"
  by (simp add: showReadingPane_def split: option.splits)

lemma targetGroup_Some: "targetGroup ns h = Some t \<longleftrightarrow> t < length ns \<and> originalSectionId (ns ! t) \<noteq> [] \<and> t = (case h of HitCrystal i \<Rightarrow> i | HitSprite i \<Rightarrow> i | HitCore i \<Rightarrow> i)"
  by (cases h) (auto simp: groupWithSection_def split: option.splits)

lemma nodes_selectGroup:
  "nodes (selectGroup t s) =
     (case activeNodeGroup s of None \<Rightarrow> nodes s
      | Some a \<Rightarrow> (nodes s)[a := (nodes s ! a)\<lparr>isFrozen := False\<rparr>])[t := ((case activeNodeGroup s of None \<Rightarrow> nodes s
      | Some a \<Rightarrow> (nodes s)[a := (nodes s ! a)\<lparr>isFrozen := False\<rparr>]) ! t)\<lparr>isFrozen := True\<rparr>]"
  by (simp add: selectGroup_def Let_def)

lemma length_selectGroup [simp]: "length (nodes (selectGroup t s)) = length (nodes s)"
  by (simp add: nodes_selectGroup split: option.splits)

lemma active_selectGroup [simp]: "activeNodeGroup (selectGroup t s) = Some t"
  by (simp add: selectGroup_def Let_def)

lemma isFrozen_selectGroup:
  assumes "selection_inv s" and "t < length (nodes s)" and "i < length (nodes s)"
  shows "isFrozen (nodes (selectGroup t s) ! i) \<longleftrightarrow> i = t"
proof (cases "activeNodeGroup s")
  case None
  with assms show ?thesis
    by (auto simp: nodes_selectGroup selection_inv_def nth_list_update)
next
  case (Some a)
  with assms show ?thesis
    by (auto simp: nodes_selectGroup selection_inv_def nth_list_update)
qed

lemma sectionId_set_frozen:
  "originalSectionId (xs[k := (xs ! k)\<lparr>isFrozen := b\<rparr>] ! i) = originalSectionId (xs ! i)"
  by (cases "k < length xs"; cases "i = k") (simp_all add: list_update_beyond)

lemma sectionId_selectGroup:
  "originalSectionId (nodes (selectGroup t s) ! i) = originalSectionId (nodes s ! i)"
  by (simp add: nodes_selectGroup sectionId_set_frozen split: option.splits)

lemma targetGroup_cong:
  assumes "targetGroup ns h = Some t" and "length ns' = length ns"
    and "originalSectionId (ns' ! t) = originalSectionId (ns ! t)"
  shows "targetGroup ns' h = Some t"
  using assms by (cases h) (auto simp: groupWithSection_def split: option.splits if_splits)

lemma selection_inv_selectGroup:
  "selection_inv s \<Longrightarrow> t < length (nodes s) \<Longrightarrow> selection_inv (selectGroup t s)"
  using isFrozen_selectGroup [of s t]
  by (auto simp: selection_inv_def)

lemma selection_inv_closeReadingPane:
  "selection_inv s \<Longrightarrow> selection_inv (closeReadingPane s)"
  by (auto simp: selection_inv_def closeReadingPane_def hideReadingPane_def nth_list_update
      split: option.splits)

lemma selection_inv_onMouseClick:
  "selection_inv s \<Longrightarrow> selection_inv (onMouseClick hs s)"
  by (auto simp: onMouseClick_def targetGroup_Some selection_inv_closeReadingPane
      selection_inv_selectGroup split: list.splits option.splits)

lemma nodes_animate_nth:
  "i < length (nodes s) \<Longrightarrow>
     nodes (animate t s) ! i = animateNode t (collisionAvoidance (nodes s) ! i)"
  by (simp add: animate_def length_collisionAvoidance)

lemma length_animate [simp]: "length (nodes (animate t s)) = length (nodes s)"
  by (simp add: animate_def length_collisionAvoidance)

lemma velocity_only_nth:
  "i < length ns \<Longrightarrow> velocity_only (ns ! i) (collisionAvoidance ns ! i)"
  using collisionAvoidance_velocity_only [of ns] by (simp add: list_all2_conv_all_nth)

lemma isFrozen_animate:
  "i < length (nodes s) \<Longrightarrow> isFrozen (nodes (animate t s) ! i) = isFrozen (nodes s ! i)"
  using velocity_only_nth [of i "nodes s"]
  by (simp add: nodes_animate_nth isFrozen_animateNode velocity_only_def)
     (metis node.select_convs(6) node.surjective node.update_convs(3))

lemma selection_inv_animate: "selection_inv s \<Longrightarrow> selection_inv (animate t s)"
  by (simp add: selection_inv_def isFrozen_animate) (simp add: animate_def)

lemma selection_inv_dispatch: "selection_inv s \<Longrightarrow> selection_inv (dispatch e s)"
  by (cases e) (simp_all add: selection_inv_onMouseClick selection_inv_animate)

lemma selection_inv_run: "selection_inv s \<Longrightarrow> selection_inv (run evs s)"
  unfolding run_def by (induction evs arbitrary: s) (simp_all add: selection_inv_dispatch)

lemma initial_selection_inv: "initial s \<Longrightarrow> selection_inv s"
  by (auto simp: initial_def selection_inv_def)

lemma pane_inv_onMouseClick: "pane_inv s \<Longrightarrow> pane_inv (onMouseClick hs s)"
  by (auto simp: pane_inv_def onMouseClick_def closeReadingPane_def hideReadingPane_def
      split: list.splits option.splits)

lemma pane_inv_run: "pane_inv s \<Longrightarrow> pane_inv (run evs s)"
proof (induction evs arbitrary: s)
  case Nil
  then show ?case by (simp add: run_def)
next
  case (Cons e evs)
  have "pane_inv (dispatch e s)"
    using Cons.prems by (cases e) (simp_all add: pane_inv_onMouseClick, simp add: pane_inv_def animate_def)
  from Cons.IH [OF this] show ?case by (simp add: run_def)
qed

section \<open>The loop body and the impulse\<close>

lemma finite_num_Num: "finite_num n \<Longrightarrow> \<exists>r. n = Num r"
  by (cases n) simp_all

lemma nadd_zero [simp]: "nadd v (Num 0) = v"
  by (cases v) simp_all

lemma nsub_Num: "nsub v (Num a) = nadd v (Num (- a))"
  by (cases v) simp_all

lemma sum3_squares_zero:
  fixes a b c :: real
  shows "a\<^sup>2 + b\<^sup>2 + c\<^sup>2 = 0 \<longleftrightarrow> a = 0 \<and> b = 0 \<and> c = 0"
proof
  assume h: "a\<^sup>2 + b\<^sup>2 + c\<^sup>2 = 0"
  have "0 \<le> a\<^sup>2" "0 \<le> b\<^sup>2" "0 \<le> c\<^sup>2" by simp_all
  with h have "a\<^sup>2 = 0" "b\<^sup>2 = 0" "c\<^sup>2 = 0" by linarith+
  then show "a = 0 \<and> b = 0 \<and> c = 0" by simp
qed simp

lemma distSq_zero:
  assumes "nsqrt (distSq n1 n2) = Num 0"
  shows "nsub (cx (position n1)) (cx (position n2)) = Num 0 \<and>
         nsub (cy (position n1)) (cy (position n2)) = Num 0 \<and>
         nsub (cz (position n1)) (cz (position n2)) = Num 0"
proof -
  let ?dx = "nsub (cx (position n1)) (cx (position n2))"
  let ?dy = "nsub (cy (position n1)) (cy (position n2))"
  let ?dz = "nsub (cz (position n1)) (cz (position n2))"
  have sq: "nsqrt (nadd (nadd (nmul ?dx ?dx) (nmul ?dy ?dy)) (nmul ?dz ?dz)) = Num 0"
    using assms by (simp add: distSq_def Let_def)
  obtain x y z where d: "?dx = Num x" "?dy = Num y" "?dz = Num z"
    using sq by (cases ?dx; cases ?dy; cases ?dz) simp_all
  have "sqrt (x * x + y * y + z * z) = 0"
    using sq unfolding d by (simp split: if_splits)
  then have "x\<^sup>2 + y\<^sup>2 + z\<^sup>2 = 0" by (simp add: power2_eq_square)
  then have "x = 0 \<and> y = 0 \<and> z = 0" by (simp add: sum3_squares_zero)
  then show ?thesis by (simp add: d)
qed

lemma distance_sym: "distance n m = distance m n"
  by (simp add: distance_def power2_commute)

lemma distance_nonneg: "0 \<le> distance n m"
  by (simp add: distance_def)

lemma distSq_finite:
  assumes "finite_vec (position a)" and "finite_vec (position b)"
  shows "distSq a b = Num ((distance a b)\<^sup>2)"
proof -
  obtain x1 y1 z1 x2 y2 z2 where
    p: "cx (position a) = Num x1" "cy (position a) = Num y1" "cz (position a) = Num z1"
       "cx (position b) = Num x2" "cy (position b) = Num y2" "cz (position b) = Num z2"
    using assms unfolding finite_vec_def by (meson finite_num_Num)
  show ?thesis
    by (simp add: distSq_def distance_def p power2_eq_square)
qed

lemma distance_pos:
  assumes "finite_vec (position a)" and "finite_vec (position b)"
    and "position a \<noteq> position b"
  shows "0 < distance a b"
proof -
  obtain x1 y1 z1 x2 y2 z2 where
    p: "cx (position a) = Num x1" "cy (position a) = Num y1" "cz (position a) = Num z1"
       "cx (position b) = Num x2" "cy (position b) = Num y2" "cz (position b) = Num z2"
    using assms(1,2) unfolding finite_vec_def by (meson finite_num_Num)
  have "x1 \<noteq> x2 \<or> y1 \<noteq> y2 \<or> z1 \<noteq> z2"
    using assms(3) p by (auto intro: vector3.equality)
  then have "(x1 - x2)\<^sup>2 + (y1 - y2)\<^sup>2 + (z1 - z2)\<^sup>2 \<noteq> 0"
    by (simp add: sum3_squares_zero)
  moreover have "0 \<le> (x1 - x2)\<^sup>2 + (y1 - y2)\<^sup>2 + (z1 - z2)\<^sup>2" by simp
  ultimately have "0 < (x1 - x2)\<^sup>2 + (y1 - y2)\<^sup>2 + (z1 - z2)\<^sup>2" by linarith
  then show ?thesis by (simp add: distance_def p)
qed

lemma less_threshold:
  assumes "0 \<le> d"
  shows "d\<^sup>2 < minDistance * minDistance \<longleftrightarrow> d < minDistance"
proof -
  have "d\<^sup>2 < 9\<^sup>2 \<longleftrightarrow> d < 9"
    using assms power2_less_imp_less [of d 9] power_strict_mono [of d 9 2] by auto
  then show ?thesis by (simp add: minDistance_def power2_eq_square)
qed

lemma repel_velocity:
  assumes fa: "finite_vec (position a)" and fb: "finite_vec (position b)"
    and ne: "isFrozen a \<or> isFrozen b \<or> position a \<noteq> position b"
    and c: "c = cx \<or> c = cy \<or> c = cz"
  shows "c (velocity (fst (repel a b))) = nadd (c (velocity a)) (Num (impulse c a b))"
    and "c (velocity (snd (repel a b))) = nadd (c (velocity b)) (Num (impulse c b a))"
proof -
  obtain x1 y1 z1 x2 y2 z2 where
    p: "cx (position a) = Num x1" "cy (position a) = Num y1" "cz (position a) = Num z1"
       "cx (position b) = Num x2" "cy (position b) = Num y2" "cz (position b) = Num z2"
    using fa fb unfolding finite_vec_def by (meson finite_num_Num)
  define d where "d = distance a b"
  have d0: "0 \<le> d" by (simp add: d_def distance_nonneg)
  have dsq: "distSq a b = Num (d\<^sup>2)" by (simp add: d_def distSq_finite fa fb)
  have dba: "distance b a = d" by (simp add: d_def distance_sym)
  have both: "c (velocity (fst (repel a b))) = nadd (c (velocity a)) (Num (impulse c a b)) \<and>
      c (velocity (snd (repel a b))) = nadd (c (velocity b)) (Num (impulse c b a))"
  proof (cases "isFrozen a \<or> isFrozen b")
    case True
    then show ?thesis by (auto simp: repel_def impulse_def)
  next
    case False
    then have "position a \<noteq> position b" using ne by simp
    then have dpos: "0 < d" unfolding d_def by (rule distance_pos [OF fa fb])
    show ?thesis
    proof (cases "d < minDistance")
      case True
      then have lt: "nless (distSq a b) (nmul (Num minDistance) (Num minDistance))"
        by (simp add: dsq less_threshold d0)
      have sq: "nsqrt (distSq a b) = Num d" using d0 by (simp add: dsq)
      have e1: "impulse c a b =
          (val (c (position a)) - val (c (position b))) / d * (0.001 * (minDistance - d))"
        using False True by (simp add: impulse_def d_def [symmetric] mult.commute)
      have "(val (c (position b)) - val (c (position a))) / d =
          - ((val (c (position a)) - val (c (position b))) / d)"
        by (simp add: minus_divide_left)
      then have e2: "impulse c b a =
          - ((val (c (position a)) - val (c (position b))) / d * (0.001 * (minDistance - d)))"
        using False True by (simp add: impulse_def dba mult.commute)
      show ?thesis
        unfolding e1 e2 using c False dpos lt
        by (auto simp: repel_def Let_def sq p nsub_Num)
    next
      case False
      then have "\<not> nless (distSq a b) (nmul (Num minDistance) (Num minDistance))"
        by (simp add: dsq less_threshold d0)
      then show ?thesis
        using False \<open>\<not> (isFrozen a \<or> isFrozen b)\<close>
        by (auto simp: repel_def Let_def impulse_def dba d_def [symmetric])
    qed
  qed
  from both show "c (velocity (fst (repel a b))) = nadd (c (velocity a)) (Num (impulse c a b))"
    by simp
  from both show "c (velocity (snd (repel a b))) = nadd (c (velocity b)) (Num (impulse c b a))"
    by simp
qed

section \<open>The collision loop as a sum of pushes\<close>

text \<open>
  Without any assumption on the nodes: the collision loop adds to each velocity
  component of node \<open>k\<close> the sum, over the other nodes \<open>l\<close>, of what the loop body
  computes for the pair, in the arithmetic of the program.
\<close>

lemma velocity_only_position: "velocity_only n n' \<Longrightarrow> position n' = position n"
  unfolding velocity_only_def by (metis node.select_convs(2) node.surjective node.update_convs(3))

lemma velocity_only_isFrozen: "velocity_only n n' \<Longrightarrow> isFrozen n' = isFrozen n"
  unfolding velocity_only_def by (metis node.select_convs(6) node.surjective node.update_convs(3))

lemma repelPair_nth:
  assumes "i < length cur" and "j < length cur" and "i \<noteq> j"
  shows "repelPair i j cur ! k =
     (if k = i then fst (repel (cur ! i) (cur ! j))
      else if k = j then snd (repel (cur ! i) (cur ! j)) else cur ! k)"
  using assms by (auto simp: repelPair_def split: prod.splits)

lemma length_repelPair [simp]: "length (repelPair i j cur) = length cur"
  by (simp add: repelPair_def split: prod.splits)

lemma inner_loop_rel:
  "list_all2 velocity_only ns cur \<Longrightarrow> list_all2 velocity_only ns (fold (repelPair i) js cur)"
  using list_all2_velocity_only_trans [OF _ fold_repelPair_velocity_only] .

lemma nsub_zero [simp]: "nsub v (Num 0) = v"
  by (cases v) simp_all

lemma repel_push:
  assumes "c = cx \<or> c = cy \<or> c = cz"
  shows "c (velocity (fst (repel a b))) = c (velocity a) + push c a b"
    and "c (velocity (snd (repel a b))) = nsub (c (velocity b)) (push c a b)"
  using assms by (auto simp: repel_def push_def Let_def plus_number_def)

lemma square_swap: "nmul (nsub x y) (nsub x y) = nmul (nsub y x) (nsub y x)"
  by (cases x; cases y) (simp_all add: algebra_simps)

lemma distSq_sym: "distSq b a = distSq a b"
  by (simp add: distSq_def Let_def square_swap [of "cx (position b)"]
      square_swap [of "cy (position b)"] square_swap [of "cz (position b)"])

lemma quotient_swap:
  "nsub v (nmul (ndiv (nsub x y) d) f) = nadd v (nmul (ndiv (nsub y x) d) f)"
  by (cases v; cases x; cases y; cases d; cases f) (simp_all add: field_simps)

lemma push_swap:
  assumes "c = cx \<or> c = cy \<or> c = cz"
  shows "nsub v (push c a b) = v + push c b a"
  by (auto simp: push_def distSq_sym [of b a] quotient_swap plus_number_def)

lemma velocity_only_distSq:
  "velocity_only n n' \<Longrightarrow> velocity_only m m' \<Longrightarrow> distSq n' m' = distSq n m"
  by (simp add: distSq_def velocity_only_position)

lemma velocity_only_push:
  "velocity_only n n' \<Longrightarrow> velocity_only m m' \<Longrightarrow> push c n' m' = push c n m"
  by (simp add: push_def velocity_only_distSq velocity_only_position velocity_only_isFrozen)

lemma repelPair_push:
  assumes rel: "list_all2 velocity_only ns cur"
    and i: "i < length ns" and j: "j < length ns" and ij: "i \<noteq> j"
    and c: "c = cx \<or> c = cy \<or> c = cz"
  shows "c (velocity (repelPair i j cur ! k)) =
     c (velocity (cur ! k)) +
       (if k = i then push c (ns ! i) (ns ! j)
        else if k = j then push c (ns ! j) (ns ! i) else 0)"
proof -
  have len: "length cur = length ns" using rel by (simp add: list_all2_lengthD)
  have ri: "velocity_only (ns ! i) (cur ! i)" and rj: "velocity_only (ns ! j) (cur ! j)"
    using rel i j by (simp_all add: list_all2_conv_all_nth)
  have "c (velocity (fst (repel (cur ! i) (cur ! j)))) =
      c (velocity (cur ! i)) + push c (ns ! i) (ns ! j)"
    using repel_push(1) [OF c] by (simp add: velocity_only_push [OF ri rj])
  moreover have "c (velocity (snd (repel (cur ! i) (cur ! j)))) =
      c (velocity (cur ! j)) + push c (ns ! j) (ns ! i)"
    using repel_push(2) [OF c] push_swap [OF c]
    by (simp add: velocity_only_push [OF ri rj] velocity_only_push [OF rj ri])
  ultimately show ?thesis
    using i j ij by (simp add: repelPair_nth len)
qed

lemma inner_loop_push:
  assumes rel: "list_all2 velocity_only ns cur"
    and i: "i < length ns" and js: "\<forall>j \<in> set js. j < length ns \<and> j \<noteq> i" and d: "distinct js"
    and c: "c = cx \<or> c = cy \<or> c = cz"
  shows "c (velocity (fold (repelPair i) js cur ! k)) =
     c (velocity (cur ! k)) +
       (if k = i then (\<Sum>j \<in> set js. push c (ns ! i) (ns ! j))
        else if k \<in> set js then push c (ns ! k) (ns ! i) else 0)"
  using rel js d
proof (induction js arbitrary: cur)
  case Nil
  show ?case by simp
next
  case (Cons j js)
  have j: "j < length ns" "j \<noteq> i" using Cons.prems(2) by simp_all
  have rel': "list_all2 velocity_only ns (repelPair i j cur)"
    using list_all2_velocity_only_trans [OF Cons.prems(1) repelPair_velocity_only] .
  have step: "c (velocity (repelPair i j cur ! k)) =
     c (velocity (cur ! k)) +
       (if k = i then push c (ns ! i) (ns ! j)
        else if k = j then push c (ns ! j) (ns ! i) else 0)"
    using repelPair_push [OF Cons.prems(1) i j(1) _ c] j(2) by simp
  have ih: "c (velocity (fold (repelPair i) js (repelPair i j cur) ! k)) =
     c (velocity (repelPair i j cur ! k)) +
       (if k = i then (\<Sum>j \<in> set js. push c (ns ! i) (ns ! j))
        else if k \<in> set js then push c (ns ! k) (ns ! i) else 0)"
    using Cons.IH [OF rel'] Cons.prems(2,3) by simp
  have jn: "j \<notin> set js" using Cons.prems(3) by simp
  show ?case
    using jn by (auto simp: ih step add.assoc)
qed

lemma partner_sum_step:
  fixes f :: "nat \<Rightarrow> 'a::comm_monoid_add"
  assumes "a < n" and "k < n"
  shows "(\<Sum>l \<in> {l. l < n \<and> l \<noteq> k \<and> a \<le> k \<and> a \<le> l}. f l) =
     (if k = a then (\<Sum>j \<in> {Suc a ..< n}. f j) else if k \<in> {Suc a ..< n} then f a else 0) +
     (\<Sum>l \<in> {l. l < n \<and> l \<noteq> k \<and> Suc a \<le> k \<and> Suc a \<le> l}. f l)"
proof -
  consider "k < a" | "k = a" | "a < k" by linarith
  then show ?thesis
  proof cases
    case 1
    then have "{l. l < n \<and> l \<noteq> k \<and> a \<le> k \<and> a \<le> l} = {}"
      and "{l. l < n \<and> l \<noteq> k \<and> Suc a \<le> k \<and> Suc a \<le> l} = {}" by auto
    with 1 show ?thesis by simp
  next
    case 2
    then have "{l. l < n \<and> l \<noteq> k \<and> a \<le> k \<and> a \<le> l} = {Suc a ..< n}"
      and "{l. l < n \<and> l \<noteq> k \<and> Suc a \<le> k \<and> Suc a \<le> l} = {}" by auto
    with 2 show ?thesis by simp
  next
    case 3
    let ?S = "{l. l < n \<and> l \<noteq> k \<and> Suc a \<le> k \<and> Suc a \<le> l}"
    have eq: "{l. l < n \<and> l \<noteq> k \<and> a \<le> k \<and> a \<le> l} = insert a ?S"
      using 3 assms by auto
    have "finite ?S" by simp
    moreover have "a \<notin> ?S" by simp
    ultimately have "sum f (insert a ?S) = f a + sum f ?S" by (rule sum.insert)
    with 3 assms eq show ?thesis by simp
  qed
qed

lemma outer_loop_push:
  assumes k: "k < length ns" and c: "c = cx \<or> c = cy \<or> c = cz"
  shows "list_all2 velocity_only ns cur \<Longrightarrow>
     c (velocity (fold (\<lambda>i acc. fold (repelPair i) [Suc i ..< length acc] acc)
          [a ..< length ns] cur ! k)) =
     c (velocity (cur ! k)) +
       (\<Sum>l \<in> {l. l < length ns \<and> l \<noteq> k \<and> a \<le> k \<and> a \<le> l}. push c (ns ! k) (ns ! l))"
proof (induction "length ns - a" arbitrary: a cur)
  case 0
  then have e1: "[a ..< length ns] = []" by simp
  have e2: "{l. l < length ns \<and> l \<noteq> k \<and> a \<le> k \<and> a \<le> l} = {}"
    using 0 by auto
  show ?case unfolding e1 e2 by simp
next
  case (Suc m)
  then have a: "a < length ns" by simp
  have len: "length cur = length ns" using Suc.prems by (simp add: list_all2_lengthD)
  let ?cur1 = "fold (repelPair a) [Suc a ..< length ns] cur"
  have rel1: "list_all2 velocity_only ns ?cur1" using Suc.prems by (rule inner_loop_rel)
  have inner: "c (velocity (?cur1 ! k)) =
     c (velocity (cur ! k)) +
       (if k = a then (\<Sum>j \<in> {Suc a ..< length ns}. push c (ns ! a) (ns ! j))
        else if k \<in> {Suc a ..< length ns} then push c (ns ! k) (ns ! a) else 0)"
    using inner_loop_push [OF Suc.prems a _ _ c, of "[Suc a ..< length ns]" k]
    by simp
  have m: "m = length ns - Suc a" using Suc.hyps(2) by simp
  have ih: "c (velocity (fold (\<lambda>i acc. fold (repelPair i) [Suc i ..< length acc] acc)
          [Suc a ..< length ns] ?cur1 ! k)) =
     c (velocity (?cur1 ! k)) +
       (\<Sum>l \<in> {l. l < length ns \<and> l \<noteq> k \<and> Suc a \<le> k \<and> Suc a \<le> l}.
               push c (ns ! k) (ns ! l))"
    using Suc.hyps(1) [OF m rel1] .
  have unfold: "[a ..< length ns] = a # [Suc a ..< length ns]"
    using a by (simp add: upt_conv_Cons)
  show ?case
    unfolding unfold
    by (simp add: len ih inner add.assoc
        partner_sum_step [OF a k, of "\<lambda>l. push c (ns ! k) (ns ! l)"])
qed

lemma collisionAvoidance_push:
  assumes k: "k < length ns" and c: "c = cx \<or> c = cy \<or> c = cz"
  shows "c (velocity (collisionAvoidance ns ! k)) =
     c (velocity (ns ! k)) + (\<Sum>l \<in> {..< length ns} - {k}. push c (ns ! k) (ns ! l))"
proof -
  have refl: "list_all2 velocity_only ns ns"
    by (simp add: list_all2_conv_all_nth velocity_only_refl)
  have set_eq: "{l. l < length ns \<and> l \<noteq> k} = {..< length ns} - {k}"
    by auto
  show ?thesis
    using outer_loop_push [OF k c refl, of 0]
    by (simp add: collisionAvoidance_def set_eq)
qed

lemma push_inert: "inert a b \<Longrightarrow> push c a b = 0"
  by (auto simp: inert_def push_def zero_number_def)

lemma pair_only:
  assumes i: "i < length ns" and j: "j < length ns" and ij: "i \<noteq> j"
    and rest: "\<forall>k < length ns. k \<noteq> i \<and> k \<noteq> j \<longrightarrow> inert (ns ! i) (ns ! k)"
  shows "(\<Sum>l \<in> {..< length ns} - {i}. push c (ns ! i) (ns ! l)) = push c (ns ! i) (ns ! j)"
proof -
  have fin: "finite ({..< length ns} - {i})" by simp
  have mem: "j \<in> {..< length ns} - {i}" using j ij by simp
  have "(\<Sum>l \<in> {..< length ns} - {i} - {j}. push c (ns ! i) (ns ! l)) = 0"
    using rest by (intro sum.neutral) (simp add: push_inert)
  then show ?thesis
    using sum.remove [OF fin mem, of "\<lambda>l. push c (ns ! i) (ns ! l)"] by simp
qed

lemma pair_only_velocity:
  assumes i: "i < length ns" and j: "j < length ns" and ij: "i \<noteq> j"
    and rest: "\<forall>k < length ns. k \<noteq> i \<and> k \<noteq> j \<longrightarrow>
      inert (ns ! i) (ns ! k) \<and> inert (ns ! j) (ns ! k)"
  shows "velocity (collisionAvoidance ns ! i) = velocity (fst (repel (ns ! i) (ns ! j)))"
    and "velocity (collisionAvoidance ns ! j) = velocity (snd (repel (ns ! i) (ns ! j)))"
proof -
  have ri: "\<forall>k < length ns. k \<noteq> i \<and> k \<noteq> j \<longrightarrow> inert (ns ! i) (ns ! k)"
    and rj: "\<forall>k < length ns. k \<noteq> j \<and> k \<noteq> i \<longrightarrow> inert (ns ! j) (ns ! k)"
    using rest by blast+
  have a: "c (velocity (collisionAvoidance ns ! i)) = c (velocity (fst (repel (ns ! i) (ns ! j))))"
    if c: "c = cx \<or> c = cy \<or> c = cz" for c
    using collisionAvoidance_push [OF i c] pair_only [OF i j ij ri, of c] repel_push(1) [OF c]
    by simp
  have b: "c (velocity (collisionAvoidance ns ! j)) = c (velocity (snd (repel (ns ! i) (ns ! j))))"
    if c: "c = cx \<or> c = cy \<or> c = cz" for c
    using collisionAvoidance_push [OF j c] pair_only [OF j i ij [symmetric] rj, of c]
      repel_push(2) [OF c, of "ns ! i" "ns ! j"] push_swap [OF c, of _ "ns ! i" "ns ! j"]
    by simp
  show "velocity (collisionAvoidance ns ! i) = velocity (fst (repel (ns ! i) (ns ! j)))"
    using a [of cx] a [of cy] a [of cz] by (intro vector3.equality) simp_all
  show "velocity (collisionAvoidance ns ! j) = velocity (snd (repel (ns ! i) (ns ! j)))"
    using b [of cx] b [of cy] b [of cz] by (intro vector3.equality) simp_all
qed

section \<open>Facts about the example scenes\<close>

lemma initial_scene_threeNodes: "initial (scene threeNodes)"
  by (simp add: initial_def scene_def threeNodes_def newNode_def)

lemma selection_inv_selectedScene: "selection_inv selectedScene"
  unfolding selectedScene_def
  by (intro selection_inv_onMouseClick initial_selection_inv initial_scene_threeNodes)

lemma nodes_selectedScene:
  "nodes selectedScene =
     [(threeNodes ! 0)\<lparr>isFrozen := True\<rparr>, threeNodes ! 1, threeNodes ! 2]"
  by (simp add: selectedScene_def onMouseClick_def groupWithSection_def selectGroup_def
      scene_def threeNodes_def newNode_def)

lemma document_selectedScene:
  "document selectedScene = page(''reading-content'' \<mapsto> ''<h2>Intro</h2>'')"
  by (simp add: selectedScene_def onMouseClick_def groupWithSection_def selectGroup_def
      showReadingPane_def scene_def threeNodes_def newNode_def page_def)

lemma bareScene_facts:
  "nodes bareScene = threeNodes" "activeNodeGroup bareScene = None"
  "readingPane bareScene = paneHidden" "document bareScene = barePage"
  by (simp_all add: bareScene_def)

lemma initial_bareScene: "initial bareScene"
  by (simp add: initial_def bareScene_def threeNodes_def newNode_def)

lemma shownIdle_facts:
  "nodes shownIdle = threeNodes" "activeNodeGroup shownIdle = None"
  "readingPane shownIdle = paneShown" "document shownIdle = page"
  by (simp_all add: shownIdle_def)

lemma initial_shownIdle: "initial shownIdle"
  by (simp add: initial_def shownIdle_def threeNodes_def newNode_def)

lemma paneShown_neq_paneHidden: "paneShown \<noteq> paneHidden"
  by (simp add: paneShown_def paneHidden_def)

lemma less_three: "i < (3::nat) \<Longrightarrow> i = 0 \<or> i = 1 \<or> i = 2"
  by arith

lemma threeNodes_nth:
  "threeNodes ! 0 = newNode 10 (vec3 0 0 0) (vec3 0 0 0) 0.002 ''intro''"
  "threeNodes ! 2 = newNode 12 (vec3 10 10 10) (vec3 0 0 0) 0.002 ''notes''"
  "length threeNodes = 3"
  "threeNodes ! Suc 0 = newNode 11 (vec3 1 0 0) (vec3 0 0 0) 0.002 ''usage''"
  by (simp_all add: threeNodes_def)

lemma lineNodes_nth:
  "lineNodes ! 0 = newNode 10 (vec3 0 0 0) (vec3 0 0 0) 0.002 ''intro''"
  "lineNodes ! Suc 0 = newNode 11 (vec3 8 0 0) (vec3 0 0 0) 0.002 ''usage''"
  "lineNodes ! 2 = newNode 12 (vec3 9 0 0) (vec3 0 0 0) 0.002 ''notes''"
  "length lineNodes = 3"
  by (simp_all add: lineNodes_def)

section \<open>The loop over the nodes\<close>

lemma boundsCheck_cases:
  "lo \<le> hi \<Longrightarrow> boundsCheck lo hi (p, v) =
     (if nless (Num hi) p then (Num hi, nmul v (Num (- 1)))
      else if nless p (Num lo) then (Num lo, nmul v (Num (- 1))) else (p, v))"
  by (cases p) (auto simp: boundsCheck_def)

lemma animateNode_drifting:
  assumes "\<not> isFrozen g"
  shows "position (animateNode t g) =
     \<lparr>cx = fst (boundsCheck (- 14) 14 (nadd (cx (position g)) (cx (velocity g)), cx (velocity g))),
      cy = nadd (fst (boundsCheck (- 7) 7
                  (nadd (cy (position g)) (cy (velocity g)), cy (velocity g))))
             (Num (sin (t + real (groupId g)) * 0.002)),
      cz = fst (boundsCheck (- 10) 5 (nadd (cz (position g)) (cz (velocity g)), cz (velocity g)))\<rparr>"
    and "velocity (animateNode t g) =
     \<lparr>cx = snd (boundsCheck (- 14) 14 (nadd (cx (position g)) (cx (velocity g)), cx (velocity g))),
      cy = snd (boundsCheck (- 7) 7 (nadd (cy (position g)) (cy (velocity g)), cy (velocity g))),
      cz = snd (boundsCheck (- 10) 5 (nadd (cz (position g)) (cz (velocity g)), cz (velocity g)))\<rparr>"
  using assms
  by (simp_all add: animateNode_def Let_def limitX_def limitY_def split: prod.splits)

lemma position_collisionAvoidance:
  "i < length ns \<Longrightarrow> position (collisionAvoidance ns ! i) = position (ns ! i)"
  using velocity_only_nth [of i ns] by (simp add: velocity_only_position)

lemma isFrozen_collisionAvoidance:
  "i < length ns \<Longrightarrow> isFrozen (collisionAvoidance ns ! i) = isFrozen (ns ! i)"
  using velocity_only_nth [of i ns] by (simp add: velocity_only_isFrozen)

lemma frozen_collisionAvoidance:
  "i < length ns \<Longrightarrow> isFrozen (ns ! i) \<Longrightarrow> collisionAvoidance ns ! i = ns ! i"
  using velocity_only_nth [of i ns] by (simp add: velocity_only_def)

lemma groupId_collisionAvoidance:
  "i < length ns \<Longrightarrow> groupId (collisionAvoidance ns ! i) = groupId (ns ! i)"
  using velocity_only_nth [of i ns] unfolding velocity_only_def
  by (metis node.select_convs(1) node.surjective node.update_convs(3))

lemma sectionId_collisionAvoidance:
  "i < length ns \<Longrightarrow> originalSectionId (collisionAvoidance ns ! i) = originalSectionId (ns ! i)"
  using velocity_only_nth [of i ns] unfolding velocity_only_def
  by (metis node.select_convs(5) node.surjective node.update_convs(3))

lemma collisionAvoidance_single: "collisionAvoidance [n] = [n]"
  by (simp add: collisionAvoidance_def)

lemma animate_single:
  "nodes (animate t (scene [n])) ! 0 = animateNode t n"
  by (simp add: animate_def scene_def collisionAvoidance_single)

lemma collisionAvoidance_two:
  "collisionAvoidance [a, b] = [fst (repel a b), snd (repel a b)]"
  by (simp add: collisionAvoidance_def repelPair_def split: prod.splits)

lemma length_onMouseClick: "length (nodes (onMouseClick hs s)) = length (nodes s)"
  by (auto simp: onMouseClick_def closeReadingPane_def hideReadingPane_def
      split: list.splits option.splits)

lemma animate_empty: "nodes s = [] \<Longrightarrow> animate time s = s"
  by (simp add: animate_def collisionAvoidance_def)

lemma onMouseClick_empty: "nodes s = [] \<Longrightarrow> onMouseClick (h # rest) s = s"
  by (cases h) (simp_all add: onMouseClick_def groupWithSection_def)

section \<open>The computed distance and the impulse\<close>

lemma impulse_antisym: "impulse c m n = - impulse c n m"
proof -
  have "(val (c (position m)) - val (c (position n))) / distance n m =
      - ((val (c (position n)) - val (c (position m))) / distance n m)"
    by (simp add: minus_divide_left)
  then show ?thesis
    by (auto simp: impulse_def distance_sym [of m n])
qed

lemma distance_squared:
  "(distance n m)\<^sup>2 =
     (val (cx (position n)) - val (cx (position m)))\<^sup>2 +
     (val (cy (position n)) - val (cy (position m)))\<^sup>2 +
     (val (cz (position n)) - val (cz (position m)))\<^sup>2"
  by (simp add: distance_def)

lemma impulse_dot:
  assumes "\<not> isFrozen n" and "\<not> isFrozen m" and "distance n m < minDistance"
    and "0 < distance n m"
  shows "impulse cx n m * (val (cx (position n)) - val (cx (position m))) +
         impulse cy n m * (val (cy (position n)) - val (cy (position m))) +
         impulse cz n m * (val (cz (position n)) - val (cz (position m))) =
         0.001 * (minDistance - distance n m) * distance n m"
proof -
  define d where "d = distance n m"
  define x where "x = val (cx (position n)) - val (cx (position m))"
  define y where "y = val (cy (position n)) - val (cy (position m))"
  define z where "z = val (cz (position n)) - val (cz (position m))"
  have sq: "x * x + y * y + z * z = d * d"
    using distance_squared [of n m] by (simp add: d_def x_def y_def z_def power2_eq_square)
  have d: "0 < d" using assms(4) by (simp add: d_def)
  have "0.001 * (minDistance - d) * (x / d) * x + 0.001 * (minDistance - d) * (y / d) * y +
      0.001 * (minDistance - d) * (z / d) * z =
      0.001 * (minDistance - d) * ((x * x + y * y + z * z) / d)"
    by (simp add: algebra_simps add_divide_distrib)
  also have "\<dots> = 0.001 * (minDistance - d) * d" using d by (simp add: sq)
  finally show ?thesis
    using assms(1-3) by (simp add: impulse_def d_def x_def y_def z_def)
qed

lemma nsqrt_Num:
  assumes "nsqrt v = Num d"
  shows "\<exists>q. v = Num q \<and> 0 \<le> q \<and> d = sqrt q"
  using assms by (cases v) (auto split: if_splits)

lemma distSq_Num:
  assumes "distSq a b = Num q"
  shows "finite_vec (position a)" and "finite_vec (position b)"
proof -
  have "finite_vec (position a) \<and> finite_vec (position b)"
    using assms
    by (cases "cx (position a)"; cases "cy (position a)"; cases "cz (position a)";
        cases "cx (position b)"; cases "cy (position b)"; cases "cz (position b)")
       (simp_all add: distSq_def finite_vec_def)
  then show "finite_vec (position a)" and "finite_vec (position b)" by simp_all
qed

lemma computed_distance:
  assumes "nsqrt (distSq a b) = Num d"
  shows "finite_vec (position a)" and "finite_vec (position b)" and "d = distance a b"
proof -
  obtain q where q: "distSq a b = Num q" "0 \<le> q" "d = sqrt q"
    using nsqrt_Num [OF assms] by blast
  show fa: "finite_vec (position a)" and fb: "finite_vec (position b)"
    using distSq_Num [OF q(1)] by simp_all
  have "q = (distance a b)\<^sup>2" using distSq_finite [OF fa fb] q(1) by simp
  then show "d = distance a b" using q(3) distance_nonneg [of a b] by simp
qed

lemma push_impulse:
  assumes fa: "finite_vec (position a)" and fb: "finite_vec (position b)"
    and ne: "isFrozen a \<or> isFrozen b \<or> position a \<noteq> position b"
    and c: "c = cx \<or> c = cy \<or> c = cz"
  shows "push c a b = Num (impulse c a b)"
proof -
  obtain x1 y1 z1 x2 y2 z2 where
    p: "cx (position a) = Num x1" "cy (position a) = Num y1" "cz (position a) = Num z1"
       "cx (position b) = Num x2" "cy (position b) = Num y2" "cz (position b) = Num z2"
    using fa fb unfolding finite_vec_def by (meson finite_num_Num)
  define d where "d = distance a b"
  have d0: "0 \<le> d" by (simp add: d_def distance_nonneg)
  have dsq: "distSq a b = Num (d\<^sup>2)" by (simp add: d_def distSq_finite fa fb)
  show ?thesis
  proof (cases "isFrozen a \<or> isFrozen b")
    case True
    then show ?thesis by (auto simp: push_def impulse_def)
  next
    case False
    then have "position a \<noteq> position b" using ne by simp
    then have dpos: "0 < d" unfolding d_def by (rule distance_pos [OF fa fb])
    show ?thesis
    proof (cases "d < minDistance")
      case True
      then have lt: "nless (distSq a b) (nmul (Num minDistance) (Num minDistance))"
        by (simp add: dsq less_threshold d0)
      have sq: "nsqrt (distSq a b) = Num d" using d0 by (simp add: dsq)
      have e1: "impulse c a b =
          (val (c (position a)) - val (c (position b))) / d * (0.001 * (minDistance - d))"
        using False True by (simp add: impulse_def d_def [symmetric] mult.commute)
      show ?thesis
        unfolding e1 using c False dpos lt by (auto simp: push_def sq p)
    next
      case False
      then have "\<not> nless (distSq a b) (nmul (Num minDistance) (Num minDistance))"
        by (simp add: dsq less_threshold d0)
      then show ?thesis
        using False by (auto simp: push_def impulse_def d_def [symmetric])
    qed
  qed
qed

lemma val_nadd: "finite_num v \<Longrightarrow> val (nadd v (Num a)) - val v = a"
  by (cases v) simp_all

lemma repel_separation:
  assumes fa: "finite_vec (position a)" and fb: "finite_vec (position b)"
    and va: "finite_vec (velocity a)" and vb: "finite_vec (velocity b)"
    and nf: "\<not> isFrozen a" "\<not> isFrozen b" and ne: "position a \<noteq> position b"
    and lt: "distance a b < minDistance"
  shows "separation a b (fst (repel a b)) (snd (repel a b)) =
     2 * (0.001 * (minDistance - distance a b) * distance a b)"
proof -
  have ne': "isFrozen a \<or> isFrozen b \<or> position a \<noteq> position b" using ne by simp
  have d: "0 < distance a b" using fa fb ne by (rule distance_pos)
  have da: "val (c (velocity (fst (repel a b)))) - val (c (velocity a)) = impulse c a b"
    if "c = cx \<or> c = cy \<or> c = cz" for c
    using repel_velocity(1) [OF fa fb ne' that] va that
    by (auto simp: finite_vec_def val_nadd)
  have db: "val (c (velocity (snd (repel a b)))) - val (c (velocity b)) = - impulse c a b"
    if "c = cx \<or> c = cy \<or> c = cz" for c
    using repel_velocity(2) [OF fa fb ne' that] vb that impulse_antisym [of c b a]
    by (auto simp: finite_vec_def val_nadd)
  have "separation a b (fst (repel a b)) (snd (repel a b)) =
      2 * (impulse cx a b * (val (cx (position a)) - val (cx (position b))) +
           impulse cy a b * (val (cy (position a)) - val (cy (position b))) +
           impulse cz a b * (val (cz (position a)) - val (cz (position b))))"
  proof -
    have "separation a b (fst (repel a b)) (snd (repel a b)) =
        (impulse cx a b - (- impulse cx a b)) * (val (cx (position a)) - val (cx (position b))) +
        (impulse cy a b - (- impulse cy a b)) * (val (cy (position a)) - val (cy (position b))) +
        (impulse cz a b - (- impulse cz a b)) * (val (cz (position a)) - val (cz (position b)))"
      unfolding separation_def by (simp add: da db del: diff_minus_eq_add)
    then show ?thesis by (simp add: algebra_simps)
  qed
  then show ?thesis
    by (simp only: impulse_dot [OF nf lt d])
qed

lemma repel_coincident_all:
  assumes "\<not> isFrozen a" and "\<not> isFrozen b" and "finite_vec (position a)"
    and "position b = position a"
  shows "velocity (fst (repel a b)) = \<lparr>cx = NaN, cy = NaN, cz = NaN\<rparr>"
    and "velocity (snd (repel a b)) = \<lparr>cx = NaN, cy = NaN, cz = NaN\<rparr>"
proof -
  obtain x y z where p: "cx (position a) = Num x" "cy (position a) = Num y" "cz (position a) = Num z"
    using assms(3) unfolding finite_vec_def by (meson finite_num_Num)
  show "velocity (fst (repel a b)) = \<lparr>cx = NaN, cy = NaN, cz = NaN\<rparr>"
    using assms(1,2) by (simp add: repel_def distSq_def assms(4) p minDistance_def Let_def)
  show "velocity (snd (repel a b)) = \<lparr>cx = NaN, cy = NaN, cz = NaN\<rparr>"
    using assms(1,2) by (simp add: repel_def distSq_def assms(4) p minDistance_def Let_def)
qed

section \<open>Three nodes on a line\<close>

lemma lineNodes_distance:
  "distance (lineNodes ! 0) (lineNodes ! Suc 0) = 8"
  "distance (lineNodes ! 0) (lineNodes ! 2) = 9"
  "distance (lineNodes ! Suc 0) (lineNodes ! 2) = 1"
  by (simp_all add: distance_def lineNodes_nth newNode_def vec3_def)

lemma lineNodes_impulse:
  "impulse cx (lineNodes ! 0) (lineNodes ! Suc 0) = - 0.001"
  "impulse cy (lineNodes ! 0) (lineNodes ! Suc 0) = 0"
  "impulse cz (lineNodes ! 0) (lineNodes ! Suc 0) = 0"
  "impulse c (lineNodes ! 0) (lineNodes ! 2) = 0"
  "impulse cx (lineNodes ! Suc 0) (lineNodes ! 2) = - 0.008"
  "impulse cy (lineNodes ! Suc 0) (lineNodes ! 2) = 0"
  "impulse cz (lineNodes ! Suc 0) (lineNodes ! 2) = 0"
  by (simp_all add: impulse_def lineNodes_distance minDistance_def)
     (simp_all add: lineNodes_nth newNode_def vec3_def)

lemma lineNodes_push:
  assumes c: "c = cx \<or> c = cy \<or> c = cz"
  shows "push c (lineNodes ! 0) (lineNodes ! Suc 0) = Num (impulse c (lineNodes ! 0) (lineNodes ! Suc 0))"
    and "push c (lineNodes ! 0) (lineNodes ! 2) = Num 0"
    and "push c (lineNodes ! Suc 0) (lineNodes ! 0) = Num (- impulse c (lineNodes ! 0) (lineNodes ! Suc 0))"
    and "push c (lineNodes ! Suc 0) (lineNodes ! 2) = Num (impulse c (lineNodes ! Suc 0) (lineNodes ! 2))"
proof -
  have f: "finite_vec (position (lineNodes ! 0))" "finite_vec (position (lineNodes ! Suc 0))"
    "finite_vec (position (lineNodes ! 2))"
    by (simp_all add: lineNodes_nth newNode_def vec3_def finite_vec_def)
  have ne: "position (lineNodes ! 0) \<noteq> position (lineNodes ! Suc 0)"
    "position (lineNodes ! 0) \<noteq> position (lineNodes ! 2)"
    "position (lineNodes ! Suc 0) \<noteq> position (lineNodes ! 2)"
    by (simp_all add: lineNodes_nth newNode_def vec3_def)
  show "push c (lineNodes ! 0) (lineNodes ! Suc 0) = Num (impulse c (lineNodes ! 0) (lineNodes ! Suc 0))"
    using ne(1) by (intro push_impulse f c) simp
  show "push c (lineNodes ! 0) (lineNodes ! 2) = Num 0"
    using push_impulse [OF f(1) f(3) _ c] ne(2) by (simp add: lineNodes_impulse(4))
  show "push c (lineNodes ! Suc 0) (lineNodes ! 0) = Num (- impulse c (lineNodes ! 0) (lineNodes ! Suc 0))"
    using push_impulse [OF f(2) f(1) _ c] ne(1) impulse_antisym [of c "lineNodes ! Suc 0" "lineNodes ! 0"]
    by simp
  show "push c (lineNodes ! Suc 0) (lineNodes ! 2) = Num (impulse c (lineNodes ! Suc 0) (lineNodes ! 2))"
    using ne(3) by (intro push_impulse f c) simp
qed

lemma lineNodes_velocity:
  "velocity (collisionAvoidance lineNodes ! 0) = vec3 (- 0.001) 0 0"
  "velocity (collisionAvoidance lineNodes ! Suc 0) = vec3 (- 0.007) 0 0"
proof -
  have k: "0 < length lineNodes" "Suc 0 < length lineNodes" by (simp_all add: lineNodes_nth)
  have v: "velocity (lineNodes ! 0) = vec3 0 0 0" "velocity (lineNodes ! Suc 0) = vec3 0 0 0"
    by (simp_all add: lineNodes_nth newNode_def)
  have s0: "{..< length lineNodes} - {0} = {Suc 0, 2}"
    and s1: "{..< length lineNodes} - {Suc 0} = {0, 2}"
    unfolding lineNodes_nth(4) by auto
  have e0: "c (velocity (collisionAvoidance lineNodes ! 0)) =
      Num (impulse c (lineNodes ! 0) (lineNodes ! Suc 0))" if "c = cx \<or> c = cy \<or> c = cz" for c
    using collisionAvoidance_push [OF k(1) that] that
    by (auto simp: s0 lineNodes_push v vec3_def plus_number_def zero_number_def)
  show "velocity (collisionAvoidance lineNodes ! 0) = vec3 (- 0.001) 0 0"
    by (rule vector3.equality)
       (simp_all add: e0 [of cx] e0 [of cy] e0 [of cz] lineNodes_impulse vec3_def)
  have e1: "c (velocity (collisionAvoidance lineNodes ! Suc 0)) =
      Num (- impulse c (lineNodes ! 0) (lineNodes ! Suc 0) + impulse c (lineNodes ! Suc 0) (lineNodes ! 2))"
    if "c = cx \<or> c = cy \<or> c = cz" for c
    using collisionAvoidance_push [OF k(2) that] that
    by (auto simp: s1 lineNodes_push v vec3_def plus_number_def zero_number_def)
  show "velocity (collisionAvoidance lineNodes ! Suc 0) = vec3 (- 0.007) 0 0"
    by (rule vector3.equality)
       (simp_all add: e1 [of cx] e1 [of cy] e1 [of cz] lineNodes_impulse vec3_def)
qed

lemma lineNodes_animate_velocity:
  "velocity (nodes (animate 0 (scene lineNodes)) ! 0) = vec3 (- 0.001) 0 0"
  "velocity (nodes (animate 0 (scene lineNodes)) ! Suc 0) = vec3 (- 0.007) 0 0"
proof -
  have n: "nodes (scene lineNodes) = lineNodes" by (simp add: scene_def)
  have k: "0 < length (nodes (scene lineNodes))" "Suc 0 < length (nodes (scene lineNodes))"
    by (simp_all add: n lineNodes_nth)
  have f: "\<not> isFrozen (collisionAvoidance lineNodes ! 0)"
    "\<not> isFrozen (collisionAvoidance lineNodes ! Suc 0)"
    by (simp_all add: isFrozen_collisionAvoidance lineNodes_nth newNode_def)
  have p: "position (collisionAvoidance lineNodes ! 0) = vec3 0 0 0"
    "position (collisionAvoidance lineNodes ! Suc 0) = vec3 8 0 0"
    by (simp_all add: position_collisionAvoidance lineNodes_nth newNode_def)
  show "velocity (nodes (animate 0 (scene lineNodes)) ! 0) = vec3 (- 0.001) 0 0"
    unfolding nodes_animate_nth [OF k(1)] n animateNode_drifting(2) [OF f(1)]
    by (simp add: p lineNodes_velocity vec3_def boundsCheck_cases)
  show "velocity (nodes (animate 0 (scene lineNodes)) ! Suc 0) = vec3 (- 0.007) 0 0"
    unfolding nodes_animate_nth [OF k(2)] n animateNode_drifting(2) [OF f(2)]
    by (simp add: p lineNodes_velocity vec3_def boundsCheck_cases)
qed

section \<open>Effects of a selection\<close>

lemma flags_only_update:
  "(xs[k := (xs ! k)\<lparr>isFrozen := b\<rparr>] ! i)\<lparr>isFrozen := isFrozen (xs ! i)\<rparr> = xs ! i"
  by (cases "k < length xs"; cases "i = k") (simp_all add: list_update_beyond)

lemma flags_only_trans:
  assumes "n''\<lparr>isFrozen := isFrozen n'\<rparr> = n'" and "n'\<lparr>isFrozen := isFrozen n\<rparr> = n"
  shows "n''\<lparr>isFrozen := isFrozen n\<rparr> = n"
proof -
  have "n''\<lparr>isFrozen := isFrozen n\<rparr> = (n''\<lparr>isFrozen := isFrozen n'\<rparr>)\<lparr>isFrozen := isFrozen n\<rparr>"
    by simp
  then show ?thesis by (simp only: assms)
qed

lemma flags_only_selectGroup:
  "(nodes (selectGroup t s) ! i)\<lparr>isFrozen := isFrozen (nodes s ! i)\<rparr> = nodes s ! i"
proof (cases "activeNodeGroup s")
  case None
  then show ?thesis by (simp add: nodes_selectGroup flags_only_update)
next
  case (Some a)
  let ?xs = "(nodes s)[a := (nodes s ! a)\<lparr>isFrozen := False\<rparr>]"
  have "(?xs[t := (?xs ! t)\<lparr>isFrozen := True\<rparr>] ! i)\<lparr>isFrozen := isFrozen (nodes s ! i)\<rparr> =
      nodes s ! i"
    by (rule flags_only_trans [OF flags_only_update flags_only_update])
  then show ?thesis using Some by (simp add: nodes_selectGroup)
qed

lemma flags_only_closeReadingPane:
  "(nodes (closeReadingPane s) ! i)\<lparr>isFrozen := isFrozen (nodes s ! i)\<rparr> = nodes s ! i"
  by (simp add: closeReadingPane_def hideReadingPane_def flags_only_update split: option.splits)

lemma pane_selectGroup:
  "(case (document s (originalSectionId (nodes s ! t)), document s ''reading-content'') of
      (Some html, Some x) \<Rightarrow>
        readingPane (selectGroup t s) = paneShown \<and>
        document (selectGroup t s) = (document s)(''reading-content'' \<mapsto> html)
    | _ \<Rightarrow>
        readingPane (selectGroup t s) = readingPane s \<and>
        document (selectGroup t s) = document s)"
proof -
  have c: "originalSectionId (nodes (selectGroup t s) ! t) = originalSectionId (nodes s ! t)"
    by (rule sectionId_selectGroup)
  show ?thesis
    using c
    by (simp add: selectGroup_def Let_def nodes_selectGroup showReadingPane_def
        split: option.splits)
qed

section \<open>Properties of pointer selection\<close>

text \<open>
  Claim C1. From a state in which no node is frozen and nothing is selected, after any
  sequence of clicks and animation frames at most one node is frozen, and a node is
  frozen exactly when it is the active selection.
\<close>

theorem frozen_iff_selected_after_run:
  assumes "initial s0"
  shows "let s = run evs s0 in
           (\<forall>i < length (nodes s). \<forall>j < length (nodes s).
              isFrozen (nodes s ! i) \<and> isFrozen (nodes s ! j) \<longrightarrow> i = j) \<and>
           (\<forall>i < length (nodes s). isFrozen (nodes s ! i) \<longleftrightarrow> activeNodeGroup s = Some i)"
proof -
  have "selection_inv (run evs s0)"
    using assms by (simp add: initial_selection_inv selection_inv_run)
  then show ?thesis
    by (auto simp: selection_inv_def Let_def)
qed

theorem frozen_iff_selected_after_run_witness:
  "initial (scene threeNodes) \<and>
   (let s = run [MouseClick [HitSprite 0], Frame 0, MouseClick [HitCore 1], MouseClick []]
              (scene threeNodes)
    in (\<forall>i < length (nodes s). \<forall>j < length (nodes s).
          isFrozen (nodes s ! i) \<and> isFrozen (nodes s ! j) \<longrightarrow> i = j) \<and>
       (\<forall>i < length (nodes s). isFrozen (nodes s ! i) \<longleftrightarrow> activeNodeGroup s = Some i))"
  using frozen_iff_selected_after_run [OF initial_scene_threeNodes] initial_scene_threeNodes by simp

text \<open>
  Claim C4, amended. In a state that satisfies the selection invariant, when the nearest
  hit resolves to a node \<open>t\<close> that is not frozen, then after \<open>onMouseClick\<close> the node
  selected before (if any) is not frozen, \<open>t\<close> is the one frozen node and the active
  selection, and no node differs from before in anything but its frozen flag. The
  reading pane is shown, with the content of the section of \<open>t\<close> written into its
  container, exactly when the document has both that section and the container (the
  guard of the show block); otherwise the pane and the document stay as they were.
\<close>

theorem select_new_node:
  assumes "selection_inv s" and "targetGroup (nodes s) h = Some t"
    and "\<not> isFrozen (nodes s ! t)"
  shows "let s' = onMouseClick (h # rest) s; c = originalSectionId (nodes s ! t) in
           length (nodes s') = length (nodes s) \<and>
           (\<forall>a. activeNodeGroup s = Some a \<longrightarrow> \<not> isFrozen (nodes s' ! a)) \<and>
           (\<forall>i < length (nodes s'). isFrozen (nodes s' ! i) \<longleftrightarrow> i = t) \<and>
           (\<forall>i. (nodes s' ! i)\<lparr>isFrozen := isFrozen (nodes s ! i)\<rparr> = nodes s ! i) \<and>
           activeNodeGroup s' = Some t \<and>
           (case (document s c, document s ''reading-content'') of
              (Some html, Some x) \<Rightarrow>
                readingPane s' = paneShown \<and>
                document s' = (document s)(''reading-content'' \<mapsto> html)
            | _ \<Rightarrow> readingPane s' = readingPane s \<and> document s' = document s)"
proof -
  have t: "t < length (nodes s)" using assms(2) by (simp add: targetGroup_Some)
  have act: "activeNodeGroup s \<noteq> Some t"
    using assms(1,3) t by (auto simp: selection_inv_def)
  have click: "onMouseClick (h # rest) s = selectGroup t s"
    using assms(2) act by (simp add: onMouseClick_def)
  have frozen: "\<forall>i < length (nodes s). isFrozen (nodes (selectGroup t s) ! i) \<longleftrightarrow> i = t"
    using isFrozen_selectGroup [OF assms(1) t] by simp
  have old: "\<forall>a. activeNodeGroup s = Some a \<longrightarrow> \<not> isFrozen (nodes (selectGroup t s) ! a)"
    using frozen assms(1) act by (auto simp: selection_inv_def)
  show ?thesis
    unfolding Let_def click
    using frozen old flags_only_selectGroup [where t = t and s = s] pane_selectGroup [where s = s and t = t] by simp
qed

theorem select_new_node_witness:
  "selection_inv selectedScene \<and> targetGroup (nodes selectedScene) (HitCrystal 1) = Some 1 \<and>
   isFrozen (nodes selectedScene ! 0) \<and> \<not> isFrozen (nodes selectedScene ! 1) \<and>
   (let s' = onMouseClick [HitCrystal 1] selectedScene in
      \<not> isFrozen (nodes s' ! 0) \<and> isFrozen (nodes s' ! 1) \<and> \<not> isFrozen (nodes s' ! 2) \<and>
      activeNodeGroup s' = Some 1 \<and> readingPane s' = paneShown \<and>
      document s' ''reading-content'' = Some ''<h2>Usage</h2>'')"
proof -
  have tg: "targetGroup (nodes selectedScene) (HitCrystal 1) = Some 1"
    by (simp add: nodes_selectedScene groupWithSection_def threeNodes_def newNode_def)
  have nf: "\<not> isFrozen (nodes selectedScene ! 1)"
    by (simp add: nodes_selectedScene threeNodes_def newNode_def)
  have fr0: "isFrozen (nodes selectedScene ! 0)" by (simp add: nodes_selectedScene)
  have sec: "originalSectionId (nodes selectedScene ! 1) = ''usage''"
    by (simp add: nodes_selectedScene threeNodes_def newNode_def)
  have doc: "document selectedScene ''usage'' = Some ''<h2>Usage</h2>''"
    "document selectedScene ''reading-content'' = Some ''<h2>Intro</h2>''"
    by (simp_all add: document_selectedScene page_def)
  have len: "length (nodes selectedScene) = 3" by (simp add: nodes_selectedScene)
  let ?s' = "onMouseClick [HitCrystal 1] selectedScene"
  note th = select_new_node [OF selection_inv_selectedScene tg nf, of "[]", unfolded Let_def sec doc]
  from th have l: "length (nodes ?s') = 3" by (simp add: len)
  from th have all: "\<forall>i < length (nodes ?s'). isFrozen (nodes ?s' ! i) \<longleftrightarrow> i = 1" by blast
  have fr: "\<not> isFrozen (nodes ?s' ! 0) \<and> isFrozen (nodes ?s' ! 1) \<and> \<not> isFrozen (nodes ?s' ! 2)"
  proof -
    have lt: "0 < length (nodes ?s')" "1 < length (nodes ?s')" "2 < length (nodes ?s')"
      unfolding l by simp_all
    show ?thesis
      using all [rule_format, OF lt(1)] all [rule_format, OF lt(2)] all [rule_format, OF lt(3)]
      by simp
  qed
  from th have a: "activeNodeGroup ?s' = Some 1" by blast
  from th have sh: "readingPane ?s' = paneShown \<and>
      document ?s' = (document selectedScene)(''reading-content'' \<mapsto> ''<h2>Usage</h2>'')"
    by simp
  then have sh': "readingPane ?s' = paneShown \<and>
      document ?s' ''reading-content'' = Some ''<h2>Usage</h2>''" by simp
  show ?thesis
    unfolding Let_def using selection_inv_selectedScene tg fr0 nf fr a sh' by blast
qed

theorem select_new_node_counterexample:
  "selection_inv bareScene \<and> targetGroup (nodes bareScene) (HitSprite 0) = Some 0 \<and>
   \<not> isFrozen (nodes bareScene ! 0) \<and>
   (let s' = onMouseClick [HitSprite 0] bareScene in
      isFrozen (nodes s' ! 0) \<and> activeNodeGroup s' = Some 0 \<and>
      readingPane s' = readingPane bareScene \<and> readingPane s' = paneHidden \<and>
      document s' = document bareScene)"
proof -
  have inv: "selection_inv bareScene"
    by (rule initial_selection_inv) (rule initial_bareScene)
  have tg: "targetGroup (nodes bareScene) (HitSprite 0) = Some 0"
    by (simp add: bareScene_facts groupWithSection_def threeNodes_def newNode_def)
  have nf: "\<not> isFrozen (nodes bareScene ! 0)"
    by (simp add: bareScene_facts threeNodes_def newNode_def)
  have click: "onMouseClick [HitSprite 0] bareScene = selectGroup 0 bareScene"
    using tg by (simp add: onMouseClick_def bareScene_facts)
  have none: "document bareScene ''reading-content'' = None"
    by (simp add: bareScene_facts barePage_def)
  have pane: "readingPane (selectGroup 0 bareScene) = readingPane bareScene \<and>
      document (selectGroup 0 bareScene) = document bareScene"
    using pane_selectGroup [where s = bareScene and t = 0] by (simp add: none split: option.splits)
  have fr: "isFrozen (nodes (selectGroup 0 bareScene) ! 0)"
    using isFrozen_selectGroup [OF inv, where t = 0 and i = 0] by (simp add: bareScene_facts threeNodes_def)
  show ?thesis
    unfolding Let_def click using inv tg nf fr pane by (simp add: bareScene_facts(3))
qed

text \<open>
  Claim C5, amended. A click that resolves to the node already frozen returns the state
  unchanged, and a second click on the same node returns the state of the first. The
  first click on a node that is not frozen freezes it and shows its section, once, when
  the document has the section and the content container; when one of them is missing
  neither click shows anything.
\<close>

theorem reselect_is_noop:
  assumes "selection_inv s"
    and "targetGroup (nodes s) h = Some t" and "targetGroup (nodes s) h' = Some t"
  shows "(isFrozen (nodes s ! t) \<longrightarrow> onMouseClick (h # rest) s = s) \<and>
         onMouseClick (h' # rest') (onMouseClick (h # rest) s) = onMouseClick (h # rest) s \<and>
         (\<not> isFrozen (nodes s ! t) \<longrightarrow>
            (let s1 = onMouseClick (h # rest) s; c = originalSectionId (nodes s ! t) in
               isFrozen (nodes s1 ! t) \<and> activeNodeGroup s1 = Some t \<and>
               (case (document s c, document s ''reading-content'') of
                  (Some html, Some x) \<Rightarrow>
                    readingPane s1 = paneShown \<and>
                    document s1 = (document s)(''reading-content'' \<mapsto> html)
                | _ \<Rightarrow> readingPane s1 = readingPane s \<and> document s1 = document s)))"
proof -
  have t: "t < length (nodes s)" using assms(2) by (simp add: targetGroup_Some)
  have iff: "isFrozen (nodes s ! t) \<longleftrightarrow> activeNodeGroup s = Some t"
    using assms(1) t by (simp add: selection_inv_def)
  have first: "activeNodeGroup s = Some t \<Longrightarrow> onMouseClick (h # rest) s = s"
    using assms(2) by (simp add: onMouseClick_def)
  have sel: "activeNodeGroup s \<noteq> Some t \<Longrightarrow> onMouseClick (h # rest) s = selectGroup t s"
    using assms(2) by (simp add: onMouseClick_def)
  have "targetGroup (nodes (selectGroup t s)) h' = Some t"
    using assms(3) by (rule targetGroup_cong) (simp_all add: sectionId_selectGroup)
  then have again: "onMouseClick (h' # rest') (selectGroup t s) = selectGroup t s"
    by (simp add: onMouseClick_def)
  have same: "activeNodeGroup s = Some t \<Longrightarrow> onMouseClick (h' # rest') s = s"
    using assms(3) by (simp add: onMouseClick_def)
  have twice: "onMouseClick (h' # rest') (onMouseClick (h # rest) s) = onMouseClick (h # rest) s"
    using first sel again same by (cases "activeNodeGroup s = Some t") simp_all
  have fr: "isFrozen (nodes (selectGroup t s) ! t)"
    using isFrozen_selectGroup [OF assms(1) t t] by simp
  have shown: "\<not> isFrozen (nodes s ! t) \<longrightarrow>
      (let s1 = onMouseClick (h # rest) s; c = originalSectionId (nodes s ! t) in
         isFrozen (nodes s1 ! t) \<and> activeNodeGroup s1 = Some t \<and>
         (case (document s c, document s ''reading-content'') of
            (Some html, Some x) \<Rightarrow>
              readingPane s1 = paneShown \<and>
              document s1 = (document s)(''reading-content'' \<mapsto> html)
          | _ \<Rightarrow> readingPane s1 = readingPane s \<and> document s1 = document s))"
  proof (intro impI)
    assume "\<not> isFrozen (nodes s ! t)"
    then have e: "onMouseClick (h # rest) s = selectGroup t s" using sel iff by simp
    show "let s1 = onMouseClick (h # rest) s; c = originalSectionId (nodes s ! t) in
         isFrozen (nodes s1 ! t) \<and> activeNodeGroup s1 = Some t \<and>
         (case (document s c, document s ''reading-content'') of
            (Some html, Some x) \<Rightarrow>
              readingPane s1 = paneShown \<and>
              document s1 = (document s)(''reading-content'' \<mapsto> html)
          | _ \<Rightarrow> readingPane s1 = readingPane s \<and> document s1 = document s)"
      unfolding Let_def e using fr pane_selectGroup [where s = s and t = t] by simp
  qed
  show ?thesis using first iff twice shown by blast
qed

theorem reselect_is_noop_witness:
  "selection_inv (scene threeNodes) \<and>
   targetGroup (nodes (scene threeNodes)) (HitSprite 0) = Some 0 \<and>
   targetGroup (nodes (scene threeNodes)) (HitCrystal 0) = Some 0 \<and>
   \<not> isFrozen (nodes (scene threeNodes) ! 0) \<and>
   readingPane (scene threeNodes) = paneHidden \<and>
   readingPane selectedScene = paneShown \<and>
   document selectedScene = page(''reading-content'' \<mapsto> ''<h2>Intro</h2>'') \<and>
   isFrozen (nodes selectedScene ! 0) \<and>
   onMouseClick [HitCrystal 0] selectedScene = selectedScene"
proof -
  have inv: "selection_inv (scene threeNodes)"
    by (rule initial_selection_inv) (rule initial_scene_threeNodes)
  have a: "targetGroup (nodes (scene threeNodes)) (HitSprite 0) = Some 0"
    and b: "targetGroup (nodes (scene threeNodes)) (HitCrystal 0) = Some 0"
    by (simp_all add: scene_def groupWithSection_def threeNodes_def newNode_def)
  have nf: "\<not> isFrozen (nodes (scene threeNodes) ! 0)"
    by (simp add: scene_def threeNodes_def newNode_def)
  have sec: "originalSectionId (nodes (scene threeNodes) ! 0) = ''intro''"
    by (simp add: scene_def threeNodes_def newNode_def)
  have doc: "document (scene threeNodes) ''intro'' = Some ''<h2>Intro</h2>''"
    "document (scene threeNodes) ''reading-content'' = Some []"
    by (simp_all add: scene_def page_def)
  have pg: "document (scene threeNodes) = page" "readingPane (scene threeNodes) = paneHidden"
    by (simp_all add: scene_def)
  note th = reselect_is_noop [OF inv a b, of "[]" "[]", unfolded Let_def sec doc selectedScene_def [symmetric]]
  from th nf have "readingPane selectedScene = paneShown \<and>
      document selectedScene = page(''reading-content'' \<mapsto> ''<h2>Intro</h2>'') \<and>
      isFrozen (nodes selectedScene ! 0) \<and>
      onMouseClick [HitCrystal 0] selectedScene = selectedScene"
    by (simp add: pg)
  then show ?thesis using inv a b nf pg(2) by simp
qed

theorem reselect_is_noop_counterexample:
  "selection_inv bareScene \<and> targetGroup (nodes bareScene) (HitSprite 0) = Some 0 \<and>
   \<not> isFrozen (nodes bareScene ! 0) \<and>
   (let s1 = onMouseClick [HitSprite 0] bareScene; s2 = onMouseClick [HitSprite 0] s1 in
      isFrozen (nodes s1 ! 0) \<and> readingPane s1 = readingPane bareScene \<and>
      document s1 = document bareScene \<and> s2 = s1)"
proof -
  have inv: "selection_inv bareScene"
    by (rule initial_selection_inv) (rule initial_bareScene)
  have tg: "targetGroup (nodes bareScene) (HitSprite 0) = Some 0"
    by (simp add: bareScene_facts groupWithSection_def threeNodes_def newNode_def)
  have nf: "\<not> isFrozen (nodes bareScene ! 0)"
    by (simp add: bareScene_facts threeNodes_def newNode_def)
  have click: "onMouseClick [HitSprite 0] bareScene = selectGroup 0 bareScene"
    using tg by (simp add: onMouseClick_def bareScene_facts)
  have none: "document bareScene ''reading-content'' = None"
    by (simp add: bareScene_facts barePage_def)
  have pane: "readingPane (selectGroup 0 bareScene) = readingPane bareScene \<and>
      document (selectGroup 0 bareScene) = document bareScene"
    using pane_selectGroup [where s = bareScene and t = 0] by (simp add: none split: option.splits)
  have fr: "isFrozen (nodes (selectGroup 0 bareScene) ! 0)"
    using isFrozen_selectGroup [OF inv, where t = 0 and i = 0] by (simp add: bareScene_facts threeNodes_def)
  have "targetGroup (nodes (selectGroup 0 bareScene)) (HitSprite 0) = Some 0"
    using tg by (rule targetGroup_cong) (simp_all add: sectionId_selectGroup)
  then have again: "onMouseClick [HitSprite 0] (selectGroup 0 bareScene) = selectGroup 0 bareScene"
    by (simp add: onMouseClick_def)
  show ?thesis
    unfolding Let_def click using inv tg nf fr pane again by simp
qed

text \<open>
  Claim C6, amended. A click that hits nothing leaves no node frozen and nothing
  selected, changes no node in anything but its frozen flag, keeps the document, and
  writes the hidden style to the reading pane in every case. With nothing selected that
  write is the only effect; the state as a whole is unchanged when the pane was hidden
  already, as it is whenever nothing is selected in a state reached from an initial
  state with the pane hidden. A second miss changes nothing.
\<close>

theorem click_empty_space:
  assumes "selection_inv s"
  shows "let s' = onMouseClick [] s in
           length (nodes s') = length (nodes s) \<and>
           (\<forall>i < length (nodes s'). \<not> isFrozen (nodes s' ! i)) \<and>
           (\<forall>i. (nodes s' ! i)\<lparr>isFrozen := isFrozen (nodes s ! i)\<rparr> = nodes s ! i) \<and>
           activeNodeGroup s' = None \<and>
           readingPane s' = paneHidden \<and>
           document s' = document s \<and>
           (activeNodeGroup s = None \<longrightarrow> s' = s\<lparr>readingPane := paneHidden\<rparr>) \<and>
           (activeNodeGroup s = None \<and> readingPane s = paneHidden \<longrightarrow> s' = s) \<and>
           onMouseClick [] s' = s' \<and>
           (\<forall>s0 evs. initial s0 \<and> readingPane s0 = paneHidden \<and> s = run evs s0 \<and>
              activeNodeGroup s = None \<longrightarrow> s' = s)"
proof -
  have click: "onMouseClick [] s = closeReadingPane s" for s by (simp add: onMouseClick_def)
  have reach: "\<forall>s0 evs. initial s0 \<and> readingPane s0 = paneHidden \<and> s = run evs s0 \<and>
      activeNodeGroup s = None \<longrightarrow> closeReadingPane s = s"
  proof (intro allI impI)
    fix s0 evs
    assume h: "initial s0 \<and> readingPane s0 = paneHidden \<and> s = run evs s0 \<and>
      activeNodeGroup s = None"
    then have "pane_inv s0" by (simp add: pane_inv_def)
    then have "pane_inv s" using h pane_inv_run by blast
    moreover from h have a: "activeNodeGroup s = None" by blast
    ultimately have p: "readingPane s = paneHidden" by (simp add: pane_inv_def)
    show "closeReadingPane s = s"
      using a p by (simp add: closeReadingPane_def hideReadingPane_def)
  qed
  have rest: "length (nodes (closeReadingPane s)) = length (nodes s) \<and>
      (\<forall>i < length (nodes (closeReadingPane s)). \<not> isFrozen (nodes (closeReadingPane s) ! i)) \<and>
      activeNodeGroup (closeReadingPane s) = None \<and>
      readingPane (closeReadingPane s) = paneHidden \<and>
      document (closeReadingPane s) = document s \<and>
      (activeNodeGroup s = None \<longrightarrow> closeReadingPane s = s\<lparr>readingPane := paneHidden\<rparr>) \<and>
      (activeNodeGroup s = None \<and> readingPane s = paneHidden \<longrightarrow> closeReadingPane s = s) \<and>
      closeReadingPane (closeReadingPane s) = closeReadingPane s"
    using assms
    by (auto simp: closeReadingPane_def hideReadingPane_def selection_inv_def
        nth_list_update split: option.splits)
  show ?thesis
    unfolding Let_def click using rest reach flags_only_closeReadingPane [of s] by blast
qed

theorem click_empty_space_witness:
  "selection_inv selectedScene \<and>
   isFrozen (nodes selectedScene ! 0) \<and> readingPane selectedScene = paneShown \<and>
   (let s' = onMouseClick [] selectedScene in
      \<not> isFrozen (nodes s' ! 0) \<and> activeNodeGroup s' = None \<and> readingPane s' = paneHidden \<and>
      onMouseClick [] s' = s')"
proof -
  let ?s' = "onMouseClick [] selectedScene"
  have shown: "readingPane selectedScene = paneShown"
    by (simp add: selectedScene_def onMouseClick_def groupWithSection_def selectGroup_def
        showReadingPane_def scene_def threeNodes_def newNode_def page_def)
  have l: "0 < length (nodes ?s')"
    by (simp add: length_onMouseClick nodes_selectedScene)
  note th = click_empty_space [OF selection_inv_selectedScene, unfolded Let_def]
  from th have all: "\<forall>i < length (nodes ?s'). \<not> isFrozen (nodes ?s' ! i)" by blast
  have one: "\<not> isFrozen (nodes ?s' ! 0)" using all [rule_format, OF l] .
  from th have two: "activeNodeGroup ?s' = None \<and> readingPane ?s' = paneHidden \<and>
      onMouseClick [] ?s' = ?s'" by blast
  show ?thesis
    unfolding Let_def using one two shown selection_inv_selectedScene
    by (simp add: nodes_selectedScene)
qed

theorem click_empty_space_counterexample:
  "selection_inv shownIdle \<and> activeNodeGroup shownIdle = None \<and>
   \<not> isFrozen (nodes shownIdle ! 0) \<and> \<not> isFrozen (nodes shownIdle ! 1) \<and>
   \<not> isFrozen (nodes shownIdle ! 2) \<and> length (nodes shownIdle) = 3 \<and>
   readingPane shownIdle = paneShown \<and>
   readingPane (onMouseClick [] shownIdle) = paneHidden \<and>
   onMouseClick [] shownIdle \<noteq> shownIdle"
proof -
  have inv: "selection_inv shownIdle"
    by (rule initial_selection_inv) (rule initial_shownIdle)
  have hid: "readingPane (onMouseClick [] shownIdle) = paneHidden"
    by (simp add: onMouseClick_def closeReadingPane_def hideReadingPane_def shownIdle_facts)
  then have "onMouseClick [] shownIdle \<noteq> shownIdle"
    using paneShown_neq_paneHidden shownIdle_facts(3) by metis
  then show ?thesis
    using inv hid by (simp add: shownIdle_facts threeNodes_def newNode_def)
qed

section \<open>Repulsion\<close>

text \<open>
  Claim C2 at two drifting nodes at the same position. The two nodes of
  \<open>stackedNodes\<close> are at rest at the origin: their distance is 0, below the threshold,
  and the claim has an impulse of magnitude \<open>0.001 * 9\<close> added to one and subtracted
  from the other. The collision loop divides the three coordinate differences by the
  computed distance 0, and every velocity component of both nodes becomes \<open>NaN\<close>.
\<close>

theorem repulsion_at_coincident_nodes:
  "\<not> isFrozen (stackedNodes ! 0) \<and> \<not> isFrozen (stackedNodes ! 1) \<and>
   position (stackedNodes ! 0) = vec3 0 0 0 \<and> position (stackedNodes ! 1) = vec3 0 0 0 \<and>
   velocity (stackedNodes ! 0) = vec3 0 0 0 \<and> velocity (stackedNodes ! 1) = vec3 0 0 0 \<and>
   distance (stackedNodes ! 0) (stackedNodes ! 1) = 0 \<and>
   nsqrt (distSq (stackedNodes ! 0) (stackedNodes ! 1)) = Num 0 \<and>
   velocity (collisionAvoidance stackedNodes ! 0) = \<lparr>cx = NaN, cy = NaN, cz = NaN\<rparr> \<and>
   velocity (collisionAvoidance stackedNodes ! 1) = \<lparr>cx = NaN, cy = NaN, cz = NaN\<rparr>"
proof -
  let ?a = "stackedNodes ! 0" and ?b = "stackedNodes ! Suc 0"
  have two: "stackedNodes = [?a, ?b]" by (simp add: stackedNodes_def)
  have r: "collisionAvoidance stackedNodes = [fst (repel ?a ?b), snd (repel ?a ?b)]"
    by (subst two) (rule collisionAvoidance_two)
  have h: "\<not> isFrozen ?a" "\<not> isFrozen ?b" "finite_vec (position ?a)" "position ?b = position ?a"
    by (simp_all add: stackedNodes_def newNode_def vec3_def finite_vec_def)
  have p: "position ?a = vec3 0 0 0" "velocity ?a = vec3 0 0 0" "velocity ?b = vec3 0 0 0"
    by (simp_all add: stackedNodes_def newNode_def)
  have d: "distance ?a ?b = 0" by (simp add: distance_def h(4))
  have q: "nsqrt (distSq ?a ?b) = Num 0"
    by (simp add: distSq_def h(4) p(1) vec3_def)
  show ?thesis
    using h(1,2,4) p d q by (simp add: r repel_coincident_all [OF h])
qed

text \<open>
  Claim C7, amended. For two drifting nodes whose computed distance \<open>d\<close> is positive
  and below the threshold, the loop body for that pair adds \<open>w\<close> to the velocity of the
  first and subtracts it from the velocity of the second, where \<open>w\<close> is the relative
  position scaled by \<open>0.001 * (threshold - d) / d\<close>: the dot product of \<open>w\<close> with the
  relative position is \<open>0.001 * (threshold - d) * d\<close>, which is not negative, and
  the relative velocity changes by \<open>2 * w\<close>. In a scene of any size in which every
  other node is frozen or not below the threshold from both, this is all that the
  collision loop does to the two nodes.
\<close>

theorem pair_repulsion_separates:
  assumes nf: "\<not> isFrozen a" "\<not> isFrozen b"
    and d: "nsqrt (distSq a b) = Num d" and pos: "0 < d" and lt: "d < minDistance"
  shows "let f = 0.001 * (minDistance - d);
             w = (\<lambda>c. (val (c (position a)) - val (c (position b))) / d * f);
             a' = fst (repel a b); b' = snd (repel a b)
         in velocity a' = \<lparr>cx = nadd (cx (velocity a)) (Num (w cx)),
                           cy = nadd (cy (velocity a)) (Num (w cy)),
                           cz = nadd (cz (velocity a)) (Num (w cz))\<rparr> \<and>
            velocity b' = \<lparr>cx = nsub (cx (velocity b)) (Num (w cx)),
                           cy = nsub (cy (velocity b)) (Num (w cy)),
                           cz = nsub (cz (velocity b)) (Num (w cz))\<rparr> \<and>
            w cx * (val (cx (position a)) - val (cx (position b))) +
            w cy * (val (cy (position a)) - val (cy (position b))) +
            w cz * (val (cz (position a)) - val (cz (position b))) = f * d \<and>
            0 \<le> f * d \<and>
            (finite_vec (velocity a) \<and> finite_vec (velocity b) \<longrightarrow>
               separation a b a' b' = 2 * (f * d)) \<and>
            (\<forall>ns i j. i < length ns \<and> j < length ns \<and> i \<noteq> j \<and> ns ! i = a \<and> ns ! j = b \<and>
               (\<forall>k < length ns. k \<noteq> i \<and> k \<noteq> j \<longrightarrow> inert a (ns ! k) \<and> inert b (ns ! k)) \<longrightarrow>
               velocity (collisionAvoidance ns ! i) = velocity a' \<and>
               velocity (collisionAvoidance ns ! j) = velocity b')"
proof -
  let ?f = "0.001 * (minDistance - d)"
  let ?w = "\<lambda>c. (val (c (position a)) - val (c (position b))) / d * ?f"
  have fa: "finite_vec (position a)" and fb: "finite_vec (position b)"
    and dist: "d = distance a b"
    using computed_distance [OF d] by simp_all
  have ne: "position a \<noteq> position b"
  proof
    assume "position a = position b"
    then have "distance a b = 0" by (simp add: distance_def)
    then show False using pos dist by simp
  qed
  have ne': "isFrozen a \<or> isFrozen b \<or> position a \<noteq> position b" using ne by simp
  have imp: "impulse c a b = ?w c" for c
    using nf lt by (simp add: impulse_def dist mult_ac)
  have opp: "impulse c b a = - ?w c" for c
    using impulse_antisym [of c b a] imp by simp
  have va: "c (velocity (fst (repel a b))) = nadd (c (velocity a)) (Num (?w c))"
    if c: "c = cx \<or> c = cy \<or> c = cz" for c
    using repel_velocity(1) [OF fa fb ne' c] by (simp add: imp)
  have vb: "c (velocity (snd (repel a b))) = nsub (c (velocity b)) (Num (?w c))"
    if c: "c = cx \<or> c = cy \<or> c = cz" for c
    using repel_velocity(2) [OF fa fb ne' c] by (simp add: opp nsub_Num)
  have one: "velocity (fst (repel a b)) =
      \<lparr>cx = nadd (cx (velocity a)) (Num (?w cx)), cy = nadd (cy (velocity a)) (Num (?w cy)),
       cz = nadd (cz (velocity a)) (Num (?w cz))\<rparr>"
    using va [of cx] va [of cy] va [of cz] by (intro vector3.equality) simp_all
  have two: "velocity (snd (repel a b)) =
      \<lparr>cx = nsub (cx (velocity b)) (Num (?w cx)), cy = nsub (cy (velocity b)) (Num (?w cy)),
       cz = nsub (cz (velocity b)) (Num (?w cz))\<rparr>"
    using vb [of cx] vb [of cy] vb [of cz] by (intro vector3.equality) simp_all
  have dot: "?w cx * (val (cx (position a)) - val (cx (position b))) +
      ?w cy * (val (cy (position a)) - val (cy (position b))) +
      ?w cz * (val (cz (position a)) - val (cz (position b))) = ?f * d"
    using impulse_dot [OF nf] lt pos by (simp add: imp dist)
  have sign: "0 \<le> ?f * d" using pos lt by simp
  have sep: "finite_vec (velocity a) \<and> finite_vec (velocity b) \<longrightarrow>
      separation a b (fst (repel a b)) (snd (repel a b)) = 2 * (?f * d)"
    using repel_separation [OF fa fb _ _ nf ne] lt by (simp add: dist)
  have scene: "\<forall>ns i j. i < length ns \<and> j < length ns \<and> i \<noteq> j \<and> ns ! i = a \<and> ns ! j = b \<and>
      (\<forall>k < length ns. k \<noteq> i \<and> k \<noteq> j \<longrightarrow> inert a (ns ! k) \<and> inert b (ns ! k)) \<longrightarrow>
      velocity (collisionAvoidance ns ! i) = velocity (fst (repel a b)) \<and>
      velocity (collisionAvoidance ns ! j) = velocity (snd (repel a b))"
    using pair_only_velocity by blast
  show ?thesis
    unfolding Let_def by (intro conjI one two dot sign sep scene)
qed

theorem pair_repulsion_separates_witness:
  "\<not> isFrozen (threeNodes ! 0) \<and> \<not> isFrozen (threeNodes ! 1) \<and>
   nsqrt (distSq (threeNodes ! 0) (threeNodes ! 1)) = Num 1 \<and> (1::real) < minDistance \<and>
   inert (threeNodes ! 0) (threeNodes ! 2) \<and> inert (threeNodes ! 1) (threeNodes ! 2) \<and>
   velocity (fst (repel (threeNodes ! 0) (threeNodes ! 1))) = vec3 (- 0.008) 0 0 \<and>
   velocity (snd (repel (threeNodes ! 0) (threeNodes ! 1))) = vec3 0.008 0 0 \<and>
   velocity (collisionAvoidance threeNodes ! 0) = vec3 (- 0.008) 0 0 \<and>
   velocity (collisionAvoidance threeNodes ! 1) = vec3 0.008 0 0 \<and>
   separation (threeNodes ! 0) (threeNodes ! 1)
     (fst (repel (threeNodes ! 0) (threeNodes ! 1)))
     (snd (repel (threeNodes ! 0) (threeNodes ! 1))) = 0.016"
proof -
  let ?a = "threeNodes ! 0" and ?b = "threeNodes ! Suc 0"
  have nf: "\<not> isFrozen ?a" "\<not> isFrozen ?b"
    by (simp_all add: threeNodes_nth newNode_def)
  have dd: "nsqrt (distSq ?a ?b) = Num 1"
    by (simp add: distSq_def threeNodes_nth newNode_def vec3_def)
  have lt: "(1::real) < minDistance" by (simp add: minDistance_def)
  have far: "inert ?a (threeNodes ! 2)" "inert ?b (threeNodes ! 2)"
    by (simp_all add: inert_def distSq_def threeNodes_nth newNode_def vec3_def minDistance_def)
  have fin: "finite_vec (velocity ?a) \<and> finite_vec (velocity ?b)"
    by (simp add: threeNodes_nth newNode_def vec3_def finite_vec_def)
  have rest: "\<forall>k < length threeNodes. k \<noteq> 0 \<and> k \<noteq> Suc 0 \<longrightarrow>
      inert ?a (threeNodes ! k) \<and> inert ?b (threeNodes ! k)"
    using far less_three by (auto simp: threeNodes_nth(3))
  note th = pair_repulsion_separates [OF nf dd zero_less_one lt, unfolded Let_def]
  from th have one: "velocity (fst (repel ?a ?b)) = vec3 (- 0.008) 0 0"
    by (simp add: threeNodes_nth newNode_def vec3_def minDistance_def)
  from th have two: "velocity (snd (repel ?a ?b)) = vec3 0.008 0 0"
    by (simp add: threeNodes_nth newNode_def vec3_def minDistance_def)
  from th fin have sep: "separation ?a ?b (fst (repel ?a ?b)) (snd (repel ?a ?b)) = 0.016"
    by (simp add: minDistance_def)
  from th have sc: "\<forall>ns i j. i < length ns \<and> j < length ns \<and> i \<noteq> j \<and> ns ! i = ?a \<and>
      ns ! j = ?b \<and>
      (\<forall>k < length ns. k \<noteq> i \<and> k \<noteq> j \<longrightarrow> inert ?a (ns ! k) \<and> inert ?b (ns ! k)) \<longrightarrow>
      velocity (collisionAvoidance ns ! i) = velocity (fst (repel ?a ?b)) \<and>
      velocity (collisionAvoidance ns ! j) = velocity (snd (repel ?a ?b))"
    by blast
  have whole: "velocity (collisionAvoidance threeNodes ! 0) = velocity (fst (repel ?a ?b)) \<and>
      velocity (collisionAvoidance threeNodes ! Suc 0) = velocity (snd (repel ?a ?b))"
    using sc [rule_format, of 0 threeNodes "Suc 0"] rest by (simp add: threeNodes_nth(3))
  show ?thesis
    using nf dd lt far one two sep whole by simp
qed

theorem pair_repulsion_separates_counterexample:
  "\<not> isFrozen (lineNodes ! 0) \<and> \<not> isFrozen (lineNodes ! 1) \<and>
   distance (lineNodes ! 0) (lineNodes ! 1) < minDistance \<and>
   separation (lineNodes ! 0) (lineNodes ! 1)
     (collisionAvoidance lineNodes ! 0) (collisionAvoidance lineNodes ! 1) < 0 \<and>
   separation (lineNodes ! 0) (lineNodes ! 1)
     (nodes (animate 0 (scene lineNodes)) ! 0) (nodes (animate 0 (scene lineNodes)) ! 1) < 0"
proof -
  have "separation (lineNodes ! 0) (lineNodes ! Suc 0)
     (collisionAvoidance lineNodes ! 0) (collisionAvoidance lineNodes ! Suc 0) = - 0.048"
    by (simp add: separation_def lineNodes_velocity)
       (simp add: lineNodes_nth newNode_def vec3_def)
  moreover have "separation (lineNodes ! 0) (lineNodes ! Suc 0)
     (nodes (animate 0 (scene lineNodes)) ! 0) (nodes (animate 0 (scene lineNodes)) ! Suc 0) =
     - 0.048"
    by (simp add: separation_def lineNodes_animate_velocity)
       (simp add: lineNodes_nth newNode_def vec3_def)
  ultimately show ?thesis
    using lineNodes_distance(1)
    by (simp add: minDistance_def) (simp add: lineNodes_nth newNode_def)
qed

section \<open>Bounds and frame of the animation step\<close>

text \<open>
  Claim C3, amended. For a drifting node, with \<open>v\<close> its velocity after the collision
  loop: when position plus velocity exceeds a bound on the horizontal axis (14 or -14)
  or on the depth axis (5 or -10), the position component after \<open>animate\<close> is the bound
  and the velocity component is \<open>v\<close> times -1. On the vertical axis (7 or -7) the
  velocity component is \<open>v\<close> times -1 as well, and the position component is the bound
  plus the sway \<open>sin (time + id) * 0.002\<close>, which the step adds after the bounds check.
\<close>

theorem bounds_reflection:
  assumes "i < length (nodes s)" and "\<not> isFrozen (nodes s ! i)"
  shows "let p = position (nodes s ! i);
             v = velocity (collisionAvoidance (nodes s) ! i);
             g = nodes (animate time s) ! i;
             sway = sin (time + real (groupId (nodes s ! i))) * 0.002
         in (nless (Num 14) (nadd (cx p) (cx v)) \<longrightarrow>
               cx (position g) = Num 14 \<and> cx (velocity g) = nmul (cx v) (Num (- 1))) \<and>
            (nless (nadd (cx p) (cx v)) (Num (- 14)) \<longrightarrow>
               cx (position g) = Num (- 14) \<and> cx (velocity g) = nmul (cx v) (Num (- 1))) \<and>
            (nless (Num 5) (nadd (cz p) (cz v)) \<longrightarrow>
               cz (position g) = Num 5 \<and> cz (velocity g) = nmul (cz v) (Num (- 1))) \<and>
            (nless (nadd (cz p) (cz v)) (Num (- 10)) \<longrightarrow>
               cz (position g) = Num (- 10) \<and> cz (velocity g) = nmul (cz v) (Num (- 1))) \<and>
            (nless (Num 7) (nadd (cy p) (cy v)) \<longrightarrow>
               cy (position g) = Num (7 + sway) \<and> cy (velocity g) = nmul (cy v) (Num (- 1))) \<and>
            (nless (nadd (cy p) (cy v)) (Num (- 7)) \<longrightarrow>
               cy (position g) = Num (- 7 + sway) \<and> cy (velocity g) = nmul (cy v) (Num (- 1)))"
proof -
  let ?r = "collisionAvoidance (nodes s) ! i"
  have g: "nodes (animate time s) ! i = animateNode time ?r"
    using assms(1) by (rule nodes_animate_nth)
  have nf: "\<not> isFrozen ?r" using assms by (simp add: isFrozen_collisionAvoidance)
  have p: "position ?r = position (nodes s ! i)"
    using assms(1) by (rule position_collisionAvoidance)
  have gid: "groupId ?r = groupId (nodes s ! i)"
    using assms(1) by (rule groupId_collisionAvoidance)
  have hi: "nless (Num h) q \<Longrightarrow> lo \<le> h \<Longrightarrow> boundsCheck lo h (q, w) = (Num h, nmul w (Num (- 1)))"
    for h lo q w by (simp add: boundsCheck_cases)
  have lo: "nless q (Num lo) \<Longrightarrow> lo \<le> h \<Longrightarrow> boundsCheck lo h (q, w) = (Num lo, nmul w (Num (- 1)))"
    for h lo q w by (cases q) (auto simp: boundsCheck_cases)
  show ?thesis
    unfolding Let_def g animateNode_drifting [OF nf] p gid
    by (auto simp: hi lo)
qed

theorem bounds_reflection_witness:
  "0 < length (nodes (scene [wallNodeX])) \<and> \<not> isFrozen (nodes (scene [wallNodeX]) ! 0) \<and>
   nless (Num 14) (nadd (cx (position wallNodeX)) (cx (velocity wallNodeX))) \<and>
   cx (position (nodes (animate 0 (scene [wallNodeX])) ! 0)) = Num 14 \<and>
   cx (velocity (nodes (animate 0 (scene [wallNodeX])) ! 0)) = Num (- 0.3)"
proof -
  have l: "0 < length (nodes (scene [wallNodeX]))" by (simp add: scene_def)
  have f: "\<not> isFrozen (nodes (scene [wallNodeX]) ! 0)"
    by (simp add: scene_def wallNodeX_def newNode_def)
  have n: "nodes (scene [wallNodeX]) = [wallNodeX]" by (simp add: scene_def)
  have pv: "position wallNodeX = vec3 14.5 0 0" "velocity wallNodeX = vec3 0.3 0 0"
    by (simp_all add: wallNodeX_def newNode_def)
  show ?thesis
    using bounds_reflection [OF l f, of 0] l f
    by (simp add: Let_def n collisionAvoidance_single pv vec3_def)
qed

theorem bounds_reflection_counterexample:
  "\<not> isFrozen wallNodeY \<and>
   nless (Num 7) (nadd (cy (position wallNodeY)) (cy (velocity wallNodeY))) \<and>
   cy (position (nodes (animate 0 (scene [wallNodeY])) ! 0)) \<noteq> Num 7"
proof -
  have f: "\<not> isFrozen wallNodeY" by (simp add: wallNodeY_def newNode_def)
  have pv: "position wallNodeY = vec3 0 7.5 0" "velocity wallNodeY = vec3 0 0.3 0"
    "groupId wallNodeY = 1"
    by (simp_all add: wallNodeY_def newNode_def)
  have "0 < sin (1::real)" by (rule sin_gt_zero_02) simp_all
  then show ?thesis
    using f by (simp add: animate_single animateNode_drifting [OF f] pv vec3_def boundsCheck_cases)
qed

text \<open>
  Claim C8. \<open>animate\<close> changes neither the number of nodes, nor the active selection,
  nor the \<open>isFrozen\<close> flag or the section id of any node, and it leaves the position
  and the velocity of a frozen node as they are.
\<close>

theorem animate_frame:
  assumes "i < length (nodes s)"
  shows "let n = nodes s ! i; n' = nodes (animate time s) ! i in
           length (nodes (animate time s)) = length (nodes s) \<and>
           activeNodeGroup (animate time s) = activeNodeGroup s \<and>
           isFrozen n' = isFrozen n \<and>
           originalSectionId n' = originalSectionId n \<and>
           (isFrozen n \<longrightarrow> position n' = position n \<and> velocity n' = velocity n)"
proof -
  have "activeNodeGroup (animate time s) = activeNodeGroup s" by (simp add: animate_def)
  moreover have "originalSectionId (nodes (animate time s) ! i) = originalSectionId (nodes s ! i)"
    using assms by (simp add: nodes_animate_nth sectionId_animateNode sectionId_collisionAvoidance)
  moreover have "position (nodes (animate time s) ! i) = position (nodes s ! i) \<and>
      velocity (nodes (animate time s) ! i) = velocity (nodes s ! i)" if "isFrozen (nodes s ! i)"
    using assms that by (simp add: nodes_animate_nth frozen_collisionAvoidance frozen_animateNode)
  ultimately show ?thesis
    using assms by (simp add: Let_def isFrozen_animate)
qed

theorem animate_frame_witness:
  "0 < length (nodes selectedScene) \<and> isFrozen (nodes selectedScene ! 0) \<and>
   (let n' = nodes (animate 0 selectedScene) ! 0 in
      isFrozen n' \<and> originalSectionId n' = ''intro'' \<and>
      position n' = vec3 0 0 0 \<and> velocity n' = vec3 0 0 0)"
proof -
  have l: "0 < length (nodes selectedScene)" by (simp add: nodes_selectedScene)
  have n: "nodes selectedScene ! 0 = (threeNodes ! 0)\<lparr>isFrozen := True\<rparr>"
    by (simp add: nodes_selectedScene)
  show ?thesis
    using animate_frame [OF l, of 0] l
    by (simp add: Let_def n threeNodes_def newNode_def)
qed

section \<open>Defined outcomes of the handlers\<close>

text \<open>
  Claim C9 at two drifting nodes at the same position. All coordinates of the scene of
  \<open>stackedNodes\<close> are real numbers and no node is frozen. After \<open>animate\<close>, at any
  time, every position and velocity component of both nodes is \<open>NaN\<close>: the collision
  loop divides zero by zero, and the integration adds the velocity to the position.
\<close>

theorem animate_at_coincident_nodes:
  "nodes (scene stackedNodes) = stackedNodes \<and> length stackedNodes = 2 \<and>
   finite_vec (position (stackedNodes ! 0)) \<and> finite_vec (velocity (stackedNodes ! 0)) \<and>
   finite_vec (position (stackedNodes ! 1)) \<and> finite_vec (velocity (stackedNodes ! 1)) \<and>
   \<not> isFrozen (stackedNodes ! 0) \<and> \<not> isFrozen (stackedNodes ! 1) \<and>
   velocity (nodes (animate time (scene stackedNodes)) ! 0) = \<lparr>cx = NaN, cy = NaN, cz = NaN\<rparr> \<and>
   position (nodes (animate time (scene stackedNodes)) ! 0) = \<lparr>cx = NaN, cy = NaN, cz = NaN\<rparr> \<and>
   velocity (nodes (animate time (scene stackedNodes)) ! 1) = \<lparr>cx = NaN, cy = NaN, cz = NaN\<rparr> \<and>
   position (nodes (animate time (scene stackedNodes)) ! 1) = \<lparr>cx = NaN, cy = NaN, cz = NaN\<rparr>"
proof -
  let ?a = "stackedNodes ! 0" and ?b = "stackedNodes ! Suc 0"
  let ?r0 = "fst (repel ?a ?b)" and ?r1 = "snd (repel ?a ?b)"
  have two: "stackedNodes = [?a, ?b]" by (simp add: stackedNodes_def)
  have r: "collisionAvoidance stackedNodes = [?r0, ?r1]"
    by (subst two) (rule collisionAvoidance_two)
  have n: "nodes (animate time (scene stackedNodes)) = [animateNode time ?r0, animateNode time ?r1]"
    by (simp add: animate_def scene_def r)
  have h: "\<not> isFrozen ?a" "\<not> isFrozen ?b" "finite_vec (position ?a)" "position ?b = position ?a"
    by (simp_all add: stackedNodes_def newNode_def vec3_def finite_vec_def)
  have fin: "finite_vec (velocity ?a)" "finite_vec (position ?b)" "finite_vec (velocity ?b)"
    by (simp_all add: stackedNodes_def newNode_def vec3_def finite_vec_def)
  have f: "\<not> isFrozen ?r0" "\<not> isFrozen ?r1"
    using h(1,2) by (simp_all add: repel_def Let_def)
  have v: "velocity ?r0 = \<lparr>cx = NaN, cy = NaN, cz = NaN\<rparr>"
    "velocity ?r1 = \<lparr>cx = NaN, cy = NaN, cz = NaN\<rparr>"
    by (rule repel_coincident_all [OF h])+
  have out: "velocity (animateNode time g) = \<lparr>cx = NaN, cy = NaN, cz = NaN\<rparr> \<and>
      position (animateNode time g) = \<lparr>cx = NaN, cy = NaN, cz = NaN\<rparr>"
    if "\<not> isFrozen g" "velocity g = \<lparr>cx = NaN, cy = NaN, cz = NaN\<rparr>" for g
    by (simp add: animateNode_drifting [OF that(1)] that(2) boundsCheck_def)
  show ?thesis
    using h(1,2,3) fin out [OF f(1) v(1)] out [OF f(2) v(2)]
    by (simp add: n) (simp add: scene_def stackedNodes_def)
qed

end
